theory Spec2Isabelle
  imports
    Complex_Main
    "HOL-Library.AList"
    "HOL-Library.Char_ord"
    "HOL-Library.List_Lexorder"
    "HOL-Library.Product_Lexorder"
    "HOL-Library.Multiset"
begin

section \<open>Python values and failures\<close>

text \<open>
  The model covers the computational core of \<^verbatim>\<open>cameras_mcp_web.py\<close>: the statistics helper
  and the four report builders (performance analysis, camera comparison, infraction search,
  monthly report), each up to the point where the result is rendered as JSON or markdown.

  Counts are Python integers (\<open>int\<close>). A quotient, a mean or a rounded figure is a Python
  number whose exact value is rational, so these are modelled in \<open>rat\<close>: the model follows
  the exact values and leaves the binary representation of floats aside. A JSON object is
  an association list in insertion order, which is the order Python iterates a dict in.
  Every exception the source can raise, and every early return of a failure message, is
  a value \<open>Inl e\<close> of the result.
\<close>

datatype error =
    KeyError string
  | ValueError string
  | ZeroDivisionError
  | StatisticsError
  | NoDataFound

text \<open>
  Sequencing: the rest of a block runs on the value of a step that did not raise.
\<close>

definition and_then :: "error + 'a \<Rightarrow> ('a \<Rightarrow> error + 'b) \<Rightarrow> error + 'b" where
  "and_then r f = (case r of Inl e \<Rightarrow> Inl e | Inr x \<Rightarrow> f x)"

text \<open>\<^verbatim>\<open>d[key]\<close> on a JSON object whose key may be absent.\<close>

definition getitem :: "string \<Rightarrow> 'a option \<Rightarrow> error + 'a" where
  "getitem key field = (case field of None \<Rightarrow> Inl (KeyError key) | Some v \<Rightarrow> Inr v)"

text \<open>\<^verbatim>\<open>a / b\<close> on integers: true division, raising on a zero divisor.\<close>

definition truediv :: "int \<Rightarrow> int \<Rightarrow> error + rat" where
  "truediv a b = (if b = 0 then Inl ZeroDivisionError else Inr (of_int a / of_int b))"

text \<open>
  \<^verbatim>\<open>round(x, 2)\<close>: the nearest multiple of one hundredth of the exact value, a tie going
  to the even neighbour.
\<close>

definition round_half_even :: "rat \<Rightarrow> int" where
  "round_half_even x =
     (let f = \<lfloor>x\<rfloor>; d = x - of_int f
      in if d < 1 / 2 then f
         else if 1 / 2 < d then f + 1
         else if even f then f else f + 1)"

definition round2 :: "rat \<Rightarrow> rat" where
  "round2 x = of_int (round_half_even (x * 100)) / 100"

text \<open>\<^verbatim>\<open>d.get(k, 0)\<close> on a dict of counts.\<close>

definition get0 :: "(string \<times> int) list \<Rightarrow> string \<Rightarrow> int" where
  "get0 d k = (case map_of d k of None \<Rightarrow> 0 | Some v \<Rightarrow> v)"

text \<open>\<^verbatim>\<open>k in d\<close>.\<close>

definition has_key :: "(string \<times> 'v) list \<Rightarrow> string \<Rightarrow> bool" where
  "has_key d k = (map_of d k \<noteq> None)"

section \<open>The record model\<close>

text \<open>
  One camera's entry of a week file. Every key may be absent from the JSON object, so
  every field is optional: \<^verbatim>\<open>camera_data["camera"]\<close> raises \<open>KeyError\<close> on \<open>None\<close>, while
  \<^verbatim>\<open>camera_data.get("frames", {})\<close> reads \<open>None\<close> as the empty dict.
\<close>

record camera_data =
  cd_camera :: "string option"
  cd_uptime :: "string option"
  cd_used_storage :: "string option"
  cd_total :: "int option"
  cd_infractions :: "(string \<times> int) list option"
  cd_frames :: "(string \<times> int) list option"

type_synonym week_data = "(string \<times> camera_data) list"

text \<open>\<^verbatim>\<open>camera_data.get(key, {})\<close>.\<close>

definition get_dict :: "(string \<times> int) list option \<Rightarrow> (string \<times> int) list" where
  "get_dict d = (case d of None \<Rightarrow> [] | Some items \<Rightarrow> items)"

text \<open>
  \<^verbatim>\<open>fetch_week_data\<close> is the lookup of one week: \<open>None\<close> when the file does not exist.
  \<^verbatim>\<open>if data:\<close> holds for a dict that is there and not empty.
\<close>

definition truthy :: "week_data option \<Rightarrow> bool" where
  "truthy data = (case data of None \<Rightarrow> False | Some d \<Rightarrow> d \<noteq> [])"

definition get_available_weeks :: "(int \<Rightarrow> week_data option) \<Rightarrow> int list" where
  "get_available_weeks fetch = filter (\<lambda>week. truthy (fetch week)) [1, 2, 3, 4, 5]"

section \<open>calculate_statistics\<close>

text \<open>\<^verbatim>\<open>statistics.mean\<close>, \<^verbatim>\<open>statistics.median\<close>, \<^verbatim>\<open>min\<close> and \<^verbatim>\<open>max\<close>: all raise on no data.\<close>

definition mean :: "rat list \<Rightarrow> error + rat" where
  "mean xs = (if xs = [] then Inl StatisticsError
              else Inr (sum_list xs / of_nat (length xs)))"

definition median :: "rat list \<Rightarrow> error + rat" where
  "median xs =
     (let data = sort xs; n = length data
      in if n = 0 then Inl StatisticsError
         else if n mod 2 = 1 then Inr (data ! (n div 2))
         else let i = n div 2 in Inr ((data ! (i - 1) + data ! i) / 2))"

fun min_list :: "rat list \<Rightarrow> error + rat" where
  "min_list [] = Inl (ValueError ''min() arg is an empty sequence'')"
| "min_list (x # xs) = Inr (fold min xs x)"

fun max_list :: "rat list \<Rightarrow> error + rat" where
  "max_list [] = Inl (ValueError ''max() arg is an empty sequence'')"
| "max_list (x # xs) = Inr (fold max xs x)"

record statistics =
  st_mean :: rat
  st_median :: rat
  st_min :: rat
  st_max :: rat
  st_total :: rat

definition calculate_statistics :: "rat list \<Rightarrow> error + statistics" where
  "calculate_statistics vals =
     (if vals = [] then
        Inr \<lparr>st_mean = 0, st_median = 0, st_min = 0, st_max = 0, st_total = 0\<rparr>
      else
        and_then (mean vals) (\<lambda>m.
        and_then (median vals) (\<lambda>md.
        and_then (min_list vals) (\<lambda>lo.
        and_then (max_list vals) (\<lambda>hi.
          Inr \<lparr>st_mean = round2 m, st_median = round2 md, st_min = lo, st_max = hi,
               st_total = sum_list vals\<rparr>)))))"


section \<open>analyze_camera_performance\<close>

text \<open>
  The accumulator \<^verbatim>\<open>all_data[camera_id]\<close>. The source never appends to its
  \<^verbatim>\<open>"frames"\<close> list.
\<close>

record camera_acc =
  ad_name :: string
  ad_weeks :: "int list"
  ad_infractions :: "int list"
  ad_frames :: "int list"
  ad_daily_infractions :: "(string \<times> int) list"
  ad_daily_frames :: "(string \<times> int) list"

type_synonym all_data = "(string \<times> camera_acc) list"

text \<open>
  \<^verbatim>\<open>for date, cnt in items: if date not in daily: daily[date] = 0; daily[date] += cnt\<close>.
  A new key goes to the end of the dict, an existing one keeps its place.
\<close>

fun aggregate_daily :: "(string \<times> int) list \<Rightarrow> (string \<times> int) list \<Rightarrow> (string \<times> int) list" where
  "aggregate_daily daily [] = daily"
| "aggregate_daily daily ((date, cnt) # rest) =
     aggregate_daily
       (AList.map_entry date (\<lambda>v. v + cnt)
          (if \<not> has_key daily date then AList.update date 0 daily else daily))
       rest"

text \<open>\<^verbatim>\<open>if params.camera_id and camera_id != params.camera_id: continue\<close>.\<close>

definition skip_camera :: "string option \<Rightarrow> string \<Rightarrow> bool" where
  "skip_camera flt camera_id =
     (case flt of None \<Rightarrow> False | Some c \<Rightarrow> c \<noteq> [] \<and> camera_id \<noteq> c)"

text \<open>
  The entry the loop body works on: the one already in \<open>all_data\<close>, or a fresh one, whose
  name is read from \<^verbatim>\<open>camera_data["camera"]\<close>.
\<close>

definition init_entry :: "all_data \<Rightarrow> string \<Rightarrow> camera_data \<Rightarrow> error + camera_acc" where
  "init_entry all_data camera_id cd =
     (case map_of all_data camera_id of
        Some entry \<Rightarrow> Inr entry
      | None \<Rightarrow>
          and_then (getitem ''camera'' (cd_camera cd)) (\<lambda>name.
            Inr \<lparr>ad_name = name, ad_weeks = [], ad_infractions = [], ad_frames = [],
                 ad_daily_infractions = [], ad_daily_frames = []\<rparr>))"

text \<open>
  One pass of the loop over \<^verbatim>\<open>data.items()\<close>. The updated entry is written back under its
  key: in place when the camera was known, at the end when it is new, which is where the
  source's \<^verbatim>\<open>all_data[camera_id] = {...}\<close> had put it.
\<close>

definition collect_camera ::
  "string option \<Rightarrow> int \<Rightarrow> all_data \<Rightarrow> string \<times> camera_data \<Rightarrow> error + all_data" where
  "collect_camera flt week all_data item =
     (case item of (camera_id, cd) \<Rightarrow>
        if skip_camera flt camera_id then Inr all_data
        else
          and_then (init_entry all_data camera_id cd) (\<lambda>entry.
          and_then (getitem ''total'' (cd_total cd)) (\<lambda>t.
            Inr (AList.update camera_id
                  (entry\<lparr>ad_weeks := ad_weeks entry @ [week],
                         ad_infractions := ad_infractions entry @ [t],
                         ad_daily_infractions :=
                           aggregate_daily (ad_daily_infractions entry) (get_dict (cd_infractions cd)),
                         ad_daily_frames :=
                           aggregate_daily (ad_daily_frames entry) (get_dict (cd_frames cd))\<rparr>)
                  all_data))))"

fun collect_cameras ::
  "string option \<Rightarrow> int \<Rightarrow> all_data \<Rightarrow> week_data \<Rightarrow> error + all_data" where
  "collect_cameras flt week all_data [] = Inr all_data"
| "collect_cameras flt week all_data (item # rest) =
     (case collect_camera flt week all_data item of
        Inl e \<Rightarrow> Inl e
      | Inr all_data' \<Rightarrow> collect_cameras flt week all_data' rest)"

fun collect_weeks ::
  "(int \<Rightarrow> week_data option) \<Rightarrow> string option \<Rightarrow> all_data \<Rightarrow> int list \<Rightarrow> error + all_data" where
  "collect_weeks fetch flt all_data [] = Inr all_data"
| "collect_weeks fetch flt all_data (week # rest) =
     (case fetch week of
        None \<Rightarrow> collect_weeks fetch flt all_data rest
      | Some data \<Rightarrow>
          if data \<noteq> [] then
            case collect_cameras flt week all_data data of
              Inl e \<Rightarrow> Inl e
            | Inr all_data' \<Rightarrow> collect_weeks fetch flt all_data' rest
          else collect_weeks fetch flt all_data rest)"

record analysis =
  an_name :: string
  an_weeks_analyzed :: nat
  an_infraction_stats :: statistics
  an_daily_infraction_avg :: rat
  an_daily_frame_avg :: rat
  an_efficiency :: rat

text \<open>\<^verbatim>\<open>round(mean(values), 2) if values else 0\<close>.\<close>

definition daily_avg :: "int list \<Rightarrow> error + rat" where
  "daily_avg vals =
     (if vals \<noteq> [] then and_then (mean (map of_int vals)) (\<lambda>m. Inr (round2 m))
      else Inr 0)"

text \<open>
  \<^verbatim>\<open>round(infractions / frames * 100, 2) if frames > 0 else 0\<close>: the expression of the
  performance analysis, and of the monthly report's summary, weekly breakdown and top
  cameras.
\<close>

definition rounded_efficiency :: "int \<Rightarrow> int \<Rightarrow> error + rat" where
  "rounded_efficiency infr frms =
     (if frms > 0 then and_then (truediv infr frms) (\<lambda>q. Inr (round2 (q * 100)))
      else Inr 0)"

definition analyze_camera :: "camera_acc \<Rightarrow> error + analysis" where
  "analyze_camera data =
     and_then (calculate_statistics (map of_int (ad_infractions data))) (\<lambda>infraction_stats.
       let daily_infraction_values = map snd (ad_daily_infractions data);
           daily_frame_values = map snd (ad_daily_frames data)
       in
         and_then (daily_avg daily_infraction_values) (\<lambda>ia.
         and_then (daily_avg daily_frame_values) (\<lambda>fa.
         and_then (rounded_efficiency (sum_list daily_infraction_values)
                     (sum_list daily_frame_values)) (\<lambda>eff.
           Inr \<lparr>an_name = ad_name data,
                an_weeks_analyzed = length (ad_weeks data),
                an_infraction_stats = infraction_stats,
                an_daily_infraction_avg = ia,
                an_daily_frame_avg = fa,
                an_efficiency = eff\<rparr>))))"

fun analyze_all :: "(string \<times> analysis) list \<Rightarrow> all_data \<Rightarrow> error + (string \<times> analysis) list" where
  "analyze_all analysis [] = Inr analysis"
| "analyze_all analysis ((camera_id, data) # rest) =
     (case analyze_camera data of
        Inl e \<Rightarrow> Inl e
      | Inr a \<Rightarrow> analyze_all (AList.update camera_id a analysis) rest)"

text \<open>
  The tool, up to the \<open>analysis\<close> dict it renders. \<^verbatim>\<open>if params.week_number:\<close> holds for a
  week that is given and not zero.
\<close>

definition weeks_to_analyze :: "(int \<Rightarrow> week_data option) \<Rightarrow> int option \<Rightarrow> int list" where
  "weeks_to_analyze fetch week_number =
     (case week_number of
        None \<Rightarrow> get_available_weeks fetch
      | Some w \<Rightarrow> if w \<noteq> 0 then [w] else get_available_weeks fetch)"

definition analyze_camera_performance ::
  "(int \<Rightarrow> week_data option) \<Rightarrow> int option \<Rightarrow> string option \<Rightarrow> error + (string \<times> analysis) list" where
  "analyze_camera_performance fetch week_number camera_id =
     (let weeks = weeks_to_analyze fetch week_number
      in if weeks = [] then Inl NoDataFound
         else
           case collect_weeks fetch camera_id [] weeks of
             Inl e \<Rightarrow> Inl e
           | Inr all_data \<Rightarrow>
               if all_data = [] then Inl NoDataFound else analyze_all [] all_data)"

section \<open>compare_cameras\<close>

record comparison =
  cmp_id :: string
  cmp_name :: string
  cmp_infractions :: int
  cmp_frames :: int
  cmp_efficiency :: rat
  cmp_metric_value :: rat
  cmp_storage :: string

text \<open>\<^verbatim>\<open>(total_infractions / total_frames * 100) if total_frames > 0 else 0\<close>.\<close>

definition efficiency :: "int \<Rightarrow> int \<Rightarrow> error + rat" where
  "efficiency total_infractions total_frames =
     (if total_frames > 0 then
        and_then (truediv total_infractions total_frames) (\<lambda>q. Inr (q * 100))
      else Inr 0)"

text \<open>
  The \<^verbatim>\<open>if/elif\<close> chain that picks the metric; \<open>metric_value\<close> starts at 0 and stays
  there when no branch is taken.
\<close>

definition metric_value :: "string \<Rightarrow> int \<Rightarrow> int \<Rightarrow> error + rat" where
  "metric_value metric total_infractions total_frames =
     (if metric = ''infractions'' then Inr (of_int total_infractions)
      else if metric = ''frames'' then Inr (of_int total_frames)
      else if metric = ''efficiency'' then efficiency total_infractions total_frames
      else Inr 0)"

definition compare_camera :: "string \<Rightarrow> string \<times> camera_data \<Rightarrow> error + comparison" where
  "compare_camera metric item =
     (case item of (camera_id, cd) \<Rightarrow>
        and_then (getitem ''total'' (cd_total cd)) (\<lambda>total_infractions.
        let total_frames = sum_list (map snd (get_dict (cd_frames cd))) in
        and_then (metric_value metric total_infractions total_frames) (\<lambda>mv.
        and_then (getitem ''camera'' (cd_camera cd)) (\<lambda>name.
        and_then (efficiency total_infractions total_frames) (\<lambda>eff.
        and_then (getitem ''used_storage'' (cd_used_storage cd)) (\<lambda>storage.
          Inr \<lparr>cmp_id = camera_id, cmp_name = name, cmp_infractions = total_infractions,
               cmp_frames = total_frames, cmp_efficiency = eff, cmp_metric_value = mv,
               cmp_storage = storage\<rparr>))))))"

fun compare_loop :: "string \<Rightarrow> comparison list \<Rightarrow> week_data \<Rightarrow> error + comparison list" where
  "compare_loop metric comparisons [] = Inr comparisons"
| "compare_loop metric comparisons (item # rest) =
     (case compare_camera metric item of
        Inl e \<Rightarrow> Inl e
      | Inr c \<Rightarrow> compare_loop metric (comparisons @ [c]) rest)"

text \<open>
  \<^verbatim>\<open>list.sort(key=..., reverse=True)\<close>: Python reverses the list, sorts it stably in
  ascending order and reverses it again, so that equal keys keep their original order.
\<close>

definition sort_reverse :: "('a \<Rightarrow> 'k::linorder) \<Rightarrow> 'a list \<Rightarrow> 'a list" where
  "sort_reverse key xs = rev (sort_key key (rev xs))"

text \<open>Lines 585 to 617: the metrics of each camera, then the sort.\<close>

definition rank :: "string \<Rightarrow> week_data \<Rightarrow> error + comparison list" where
  "rank metric data =
     (case compare_loop metric [] data of
        Inl e \<Rightarrow> Inl e
      | Inr comparisons \<Rightarrow> Inr (sort_reverse cmp_metric_value comparisons))"

definition compare_cameras ::
  "(int \<Rightarrow> week_data option) \<Rightarrow> int \<Rightarrow> string \<Rightarrow> error + comparison list" where
  "compare_cameras fetch week_number metric =
     (case fetch week_number of
        None \<Rightarrow> Inl NoDataFound
      | Some data \<Rightarrow> if data = [] then Inl NoDataFound else rank metric data)"

text \<open>
  \<^verbatim>\<open>CompareCamerasInput.validate_metric\<close>, which runs when the input model is built, before
  the tool body; \<open>v\<close> is the field's value as the validator receives it. The message is
  the source's, without the quotation marks around the three names.
\<close>

definition validate_metric :: "string \<Rightarrow> error + string" where
  "validate_metric v =
     (if v \<notin> set [''infractions'', ''frames'', ''efficiency''] then
        Inl (ValueError ''Metric must be infractions, frames, or efficiency'')
      else Inr v)"

text \<open>A request: the input model is validated, then the tool runs on it.\<close>

definition compare_cameras_request ::
  "(int \<Rightarrow> week_data option) \<Rightarrow> int \<Rightarrow> string \<Rightarrow> error + comparison list" where
  "compare_cameras_request fetch week_number metric =
     (case validate_metric metric of
        Inl e \<Rightarrow> Inl e
      | Inr m \<Rightarrow> compare_cameras fetch week_number m)"

section \<open>search_infractions\<close>

record search_params =
  sp_date :: "string option"
  sp_min_infractions :: "int option"
  sp_max_infractions :: "int option"

record search_match =
  m_week :: int
  m_camera_id :: string
  m_camera_name :: string
  m_date :: string
  m_infractions :: int
  m_frames :: int

text \<open>
  The three filters, each the condition of a \<^verbatim>\<open>continue\<close>. The date filter is
  \<^verbatim>\<open>params.date and date != params.date\<close>: an empty string is false in Python, so it
  filters nothing. The bounds are tested with \<^verbatim>\<open>is not None\<close>.
\<close>

definition date_excluded :: "string option \<Rightarrow> string \<Rightarrow> bool" where
  "date_excluded d date = (case d of None \<Rightarrow> False | Some s \<Rightarrow> s \<noteq> [] \<and> date \<noteq> s)"

definition below_min :: "int option \<Rightarrow> int \<Rightarrow> bool" where
  "below_min mn cnt = (case mn of None \<Rightarrow> False | Some lo \<Rightarrow> cnt < lo)"

definition above_max :: "int option \<Rightarrow> int \<Rightarrow> bool" where
  "above_max mx cnt = (case mx of None \<Rightarrow> False | Some hi \<Rightarrow> cnt > hi)"

definition excluded :: "search_params \<Rightarrow> string \<Rightarrow> int \<Rightarrow> bool" where
  "excluded p date cnt =
     (if date_excluded (sp_date p) date then True
      else if below_min (sp_min_infractions p) cnt then True
      else above_max (sp_max_infractions p) cnt)"

text \<open>The loop over \<^verbatim>\<open>infractions.items()\<close> of one camera.\<close>

fun search_dates ::
  "search_params \<Rightarrow> int \<Rightarrow> string \<Rightarrow> camera_data \<Rightarrow> search_match list \<Rightarrow>
   (string \<times> int) list \<Rightarrow> error + search_match list" where
  "search_dates p week camera_id cd matches [] = Inr matches"
| "search_dates p week camera_id cd matches ((date, cnt) # rest) =
     (if excluded p date cnt then search_dates p week camera_id cd matches rest
      else
        and_then (getitem ''camera'' (cd_camera cd)) (\<lambda>name.
          search_dates p week camera_id cd
            (matches @
              [\<lparr>m_week = week, m_camera_id = camera_id, m_camera_name = name, m_date = date,
                m_infractions = cnt, m_frames = get0 (get_dict (cd_frames cd)) date\<rparr>])
            rest))"

fun search_cameras ::
  "search_params \<Rightarrow> int \<Rightarrow> search_match list \<Rightarrow> week_data \<Rightarrow> error + search_match list" where
  "search_cameras p week matches [] = Inr matches"
| "search_cameras p week matches ((camera_id, cd) # rest) =
     and_then (search_dates p week camera_id cd matches (get_dict (cd_infractions cd)))
       (\<lambda>matches'. search_cameras p week matches' rest)"

fun search_weeks ::
  "(int \<Rightarrow> week_data option) \<Rightarrow> search_params \<Rightarrow> search_match list \<Rightarrow> int list \<Rightarrow>
   error + search_match list" where
  "search_weeks fetch p matches [] = Inr matches"
| "search_weeks fetch p matches (week # rest) =
     (case fetch week of
        None \<Rightarrow> search_weeks fetch p matches rest
      | Some data \<Rightarrow>
          if data = [] then search_weeks fetch p matches rest
          else
            and_then (search_cameras p week matches data)
              (\<lambda>matches'. search_weeks fetch p matches' rest))"

text \<open>\<^verbatim>\<open>matches.sort(key=lambda x: (x["date"], -x["infractions"]))\<close>: a stable sort.\<close>

definition match_key :: "search_match \<Rightarrow> string \<times> int" where
  "match_key x = (m_date x, - m_infractions x)"

text \<open>The scan of the given weeks and the sort: the tool body after its guard.\<close>

definition search :: "(int \<Rightarrow> week_data option) \<Rightarrow> search_params \<Rightarrow> int list \<Rightarrow> error + search_match list" where
  "search fetch p weeks =
     and_then (search_weeks fetch p [] weeks) (\<lambda>matches. Inr (sort_key match_key matches))"

definition search_infractions ::
  "(int \<Rightarrow> week_data option) \<Rightarrow> search_params \<Rightarrow> error + search_match list" where
  "search_infractions fetch p =
     (let available_weeks = get_available_weeks fetch
      in if available_weeks = [] then Inl NoDataFound else search fetch p available_weeks)"

section \<open>get_monthly_report\<close>

record month_camera =
  mc_name :: string
  mc_total_infractions :: int
  mc_total_frames :: int
  mc_weeks_active :: int

record daily_total =
  dt_infractions :: int
  dt_frames :: int

record week_summary =
  ws_week :: int
  ws_infractions :: int
  ws_frames :: int

record month_data =
  md_total_infractions :: int
  md_total_frames :: int
  md_cameras :: "(string \<times> month_camera) list"
  md_daily_totals :: "(string \<times> daily_total) list"
  md_week_summaries :: "week_summary list"

text \<open>\<^verbatim>\<open>if date not in month_data["daily_totals"]: month_data["daily_totals"][date] = {...}\<close>.\<close>

definition ensure_day :: "(string \<times> daily_total) list \<Rightarrow> string \<Rightarrow> (string \<times> daily_total) list" where
  "ensure_day daily_totals date =
     (if \<not> has_key daily_totals date then
        AList.update date \<lparr>dt_infractions = 0, dt_frames = 0\<rparr> daily_totals
      else daily_totals)"

text \<open>
  The two inner loops of a camera. They carry the month's data and the week's running
  count; the frames loop also adds to the camera's own total.
\<close>

fun add_infractions :: "month_data \<times> int \<Rightarrow> (string \<times> int) list \<Rightarrow> month_data \<times> int" where
  "add_infractions s [] = s"
| "add_infractions (md, week_infractions) ((date, cnt) # rest) =
     add_infractions
       (md\<lparr>md_daily_totals :=
             AList.map_entry date (\<lambda>d. d\<lparr>dt_infractions := dt_infractions d + cnt\<rparr>)
               (ensure_day (md_daily_totals md) date)\<rparr>,
        week_infractions + cnt)
       rest"

fun add_frames :: "string \<Rightarrow> month_data \<times> int \<Rightarrow> (string \<times> int) list \<Rightarrow> month_data \<times> int" where
  "add_frames camera_id s [] = s"
| "add_frames camera_id (md, week_frames) ((date, cnt) # rest) =
     add_frames camera_id
       (md\<lparr>md_daily_totals :=
             AList.map_entry date (\<lambda>d. d\<lparr>dt_frames := dt_frames d + cnt\<rparr>)
               (ensure_day (md_daily_totals md) date),
           md_cameras :=
             AList.map_entry camera_id (\<lambda>c. c\<lparr>mc_total_frames := mc_total_frames c + cnt\<rparr>)
               (md_cameras md)\<rparr>,
        week_frames + cnt)
       rest"

text \<open>\<^verbatim>\<open>if camera_id not in month_data["cameras"]: month_data["cameras"][camera_id] = {...}\<close>.\<close>

definition init_camera :: "month_data \<Rightarrow> string \<Rightarrow> camera_data \<Rightarrow> error + month_data" where
  "init_camera md camera_id cd =
     (if \<not> has_key (md_cameras md) camera_id then
        and_then (getitem ''camera'' (cd_camera cd)) (\<lambda>name.
          Inr (md\<lparr>md_cameras :=
                 AList.update camera_id
                   \<lparr>mc_name = name, mc_total_infractions = 0, mc_total_frames = 0,
                    mc_weeks_active = 0\<rparr>
                   (md_cameras md)\<rparr>))
      else Inr md)"

text \<open>One pass of the loop over \<^verbatim>\<open>data.items()\<close>: the state is the month's data and the
  week's two running counts.\<close>

definition month_camera_step ::
  "month_data \<times> int \<times> int \<Rightarrow> string \<times> camera_data \<Rightarrow> error + month_data \<times> int \<times> int" where
  "month_camera_step s entry =
     (case (s, entry) of ((md, week_infractions, week_frames), (camera_id, cd)) \<Rightarrow>
        and_then (init_camera md camera_id cd) (\<lambda>md1.
        and_then (getitem ''total'' (cd_total cd)) (\<lambda>t.
          let md2 = md1\<lparr>md_cameras :=
                      AList.map_entry camera_id
                        (\<lambda>c. c\<lparr>mc_total_infractions := mc_total_infractions c + t,
                               mc_weeks_active := mc_weeks_active c + 1\<rparr>)
                        (md_cameras md1)\<rparr>;
              s3 = add_infractions (md2, week_infractions) (get_dict (cd_infractions cd));
              s4 = add_frames camera_id (fst s3, week_frames) (get_dict (cd_frames cd))
          in Inr (fst s4, snd s3, snd s4))))"

fun month_cameras ::
  "month_data \<times> int \<times> int \<Rightarrow> week_data \<Rightarrow> error + month_data \<times> int \<times> int" where
  "month_cameras s [] = Inr s"
| "month_cameras s (entry # rest) =
     and_then (month_camera_step s entry) (\<lambda>s'. month_cameras s' rest)"

text \<open>The body of the loop over the weeks, for a week whose data is there.\<close>

definition month_week :: "month_data \<Rightarrow> int \<Rightarrow> week_data \<Rightarrow> error + month_data" where
  "month_week md week data =
     and_then (month_cameras (md, 0, 0) data) (\<lambda>s.
       case s of (md', week_infractions, week_frames) \<Rightarrow>
         Inr (md'\<lparr>md_week_summaries :=
                    md_week_summaries md' @
                      [\<lparr>ws_week = week, ws_infractions = week_infractions,
                        ws_frames = week_frames\<rparr>],
                  md_total_infractions := md_total_infractions md' + week_infractions,
                  md_total_frames := md_total_frames md' + week_frames\<rparr>))"

fun month_weeks ::
  "(int \<Rightarrow> week_data option) \<Rightarrow> month_data \<Rightarrow> int list \<Rightarrow> error + month_data" where
  "month_weeks fetch md [] = Inr md"
| "month_weeks fetch md (week # rest) =
     (case fetch week of
        None \<Rightarrow> month_weeks fetch md rest
      | Some data \<Rightarrow>
          if data = [] then month_weeks fetch md rest
          else and_then (month_week md week data) (\<lambda>md'. month_weeks fetch md' rest))"

definition empty_month :: month_data where
  "empty_month =
     \<lparr>md_total_infractions = 0, md_total_frames = 0, md_cameras = [], md_daily_totals = [],
      md_week_summaries = []\<rparr>"

text \<open>The aggregation of the given weeks: the tool body after its guard.\<close>

definition month_rollup :: "(int \<Rightarrow> week_data option) \<Rightarrow> int list \<Rightarrow> error + month_data" where
  "month_rollup fetch weeks = month_weeks fetch empty_month weeks"







section \<open>Example records\<close>


definition camera_one_in_three :: camera_data where
  "camera_one_in_three =
     \<lparr>cd_camera = Some ''South'', cd_uptime = Some ''9 days'', cd_used_storage = Some ''12%'',
      cd_total = Some 1, cd_infractions = Some [(''2024-01-01'', 1)],
      cd_frames = Some [(''2024-01-01'', 3)]\<rparr>"

definition one_week :: "week_data \<Rightarrow> int \<Rightarrow> week_data option" where
  "one_week data week = (if week = 1 then Some data else None)"


section \<open>The expected merge\<close>

text \<open>
  The expected merge, in the words of the specification: the count a dict holds for a
  date, the count of a camera in one week's record set, and the sum of these over the
  weeks that are there.
\<close>

definition day_count :: "(string \<times> int) list \<Rightarrow> string \<Rightarrow> int" where
  "day_count items date = sum_list (map snd (filter (\<lambda>e. fst e = date) items))"

definition week_day_count ::
  "(camera_data \<Rightarrow> (string \<times> int) list option) \<Rightarrow> week_data \<Rightarrow> string \<Rightarrow> string \<Rightarrow> int" where
  "week_day_count field data camera_id date =
     sum_list (map (\<lambda>e. day_count (get_dict (field (snd e))) date)
                   (filter (\<lambda>e. fst e = camera_id) data))"

definition weeks_day_count ::
  "(camera_data \<Rightarrow> (string \<times> int) list option) \<Rightarrow> (int \<Rightarrow> week_data option) \<Rightarrow> int list \<Rightarrow>
   string \<Rightarrow> string \<Rightarrow> int" where
  "weeks_day_count field fetch weeks camera_id date =
     sum_list (map (\<lambda>week. case fetch week of
                              None \<Rightarrow> 0
                            | Some data \<Rightarrow> week_day_count field data camera_id date) weeks)"

text \<open>What a rollup holds for a camera and a date.\<close>

definition entry_day ::
  "(camera_acc \<Rightarrow> (string \<times> int) list) \<Rightarrow> all_data \<Rightarrow> string \<Rightarrow> string \<Rightarrow> int option" where
  "entry_day field all_data camera_id date =
     (case map_of all_data camera_id of None \<Rightarrow> None | Some entry \<Rightarrow> map_of (field entry) date)"

definition opt0 :: "int option \<Rightarrow> int" where
  "opt0 v = (case v of None \<Rightarrow> 0 | Some c \<Rightarrow> c)"

text \<open>The two daily mappings: the field of the rollup and the field of the record it merges.\<close>

definition daily_pair ::
  "(camera_acc \<Rightarrow> (string \<times> int) list) \<Rightarrow> (camera_data \<Rightarrow> (string \<times> int) list option) \<Rightarrow> bool" where
  "daily_pair F field =
     (F = ad_daily_infractions \<and> field = cd_infractions \<or>
      F = ad_daily_frames \<and> field = cd_frames)"

definition merge_example :: "int \<Rightarrow> week_data option" where
  "merge_example week =
     (if week = 1 then
        Some [(''D'', \<lparr>cd_camera = Some ''Depot'', cd_uptime = Some ''1 day'',
                       cd_used_storage = Some ''5%'', cd_total = Some 3,
                       cd_infractions = Some [(''2024-01-01'', 3)],
                       cd_frames = Some [(''2024-01-01'', 30)]\<rparr>)]
      else if week = 2 then
        Some [(''D'', \<lparr>cd_camera = Some ''Depot'', cd_uptime = Some ''8 days'',
                       cd_used_storage = Some ''9%'', cd_total = Some 5,
                       cd_infractions = Some [(''2024-01-01'', 5)],
                       cd_frames = Some [(''2024-01-01'', 50)]\<rparr>)]
      else None)"

section \<open>The expected monthly totals\<close>

text \<open>
  The sum of a record's daily infraction entries and of its daily frame entries, and the
  sums of these over a week's record set and over the weeks that are there.
\<close>

definition daily_sum :: "camera_data \<Rightarrow> int" where
  "daily_sum cd = sum_list (map snd (get_dict (cd_infractions cd)))"

definition frame_sum :: "camera_data \<Rightarrow> int" where
  "frame_sum cd = sum_list (map snd (get_dict (cd_frames cd)))"

definition week_daily_sum :: "week_data \<Rightarrow> int" where
  "week_daily_sum data = sum_list (map (\<lambda>e. daily_sum (snd e)) data)"

definition week_frame_sum :: "week_data \<Rightarrow> int" where
  "week_frame_sum data = sum_list (map (\<lambda>e. frame_sum (snd e)) data)"

definition all_daily_sum :: "(int \<Rightarrow> week_data option) \<Rightarrow> int list \<Rightarrow> int" where
  "all_daily_sum fetch weeks =
     sum_list (map (\<lambda>week. case fetch week of None \<Rightarrow> 0
                                            | Some data \<Rightarrow> week_daily_sum data) weeks)"

text \<open>The stored total-count fields: of one camera in a week, of a whole week, and summed
  over the weeks that are there.\<close>

definition week_stored_total :: "week_data \<Rightarrow> string \<Rightarrow> int" where
  "week_stored_total data camera_id =
     sum_list (map (\<lambda>e. opt0 (cd_total (snd e))) (filter (\<lambda>e. fst e = camera_id) data))"

definition stored_total_sum :: "(int \<Rightarrow> week_data option) \<Rightarrow> int list \<Rightarrow> string \<Rightarrow> int" where
  "stored_total_sum fetch weeks camera_id =
     sum_list (map (\<lambda>week. case fetch week of None \<Rightarrow> 0
                                            | Some data \<Rightarrow> week_stored_total data camera_id) weeks)"

definition week_stored :: "week_data \<Rightarrow> int" where
  "week_stored data = sum_list (map (\<lambda>e. opt0 (cd_total (snd e))) data)"

definition all_stored_total :: "(int \<Rightarrow> week_data option) \<Rightarrow> int list \<Rightarrow> int" where
  "all_stored_total fetch weeks =
     sum_list (map (\<lambda>week. case fetch week of None \<Rightarrow> 0
                                            | Some data \<Rightarrow> week_stored data) weeks)"

text \<open>The two figures of the report: the sum of the per-device totals, and one device's total.\<close>

definition device_sum :: "month_data \<Rightarrow> int" where
  "device_sum md = sum_list (map (\<lambda>e. mc_total_infractions (snd e)) (md_cameras md))"

definition camera_total :: "month_data \<Rightarrow> string \<Rightarrow> int" where
  "camera_total md camera_id =
     (case map_of (md_cameras md) camera_id of None \<Rightarrow> 0 | Some c \<Rightarrow> mc_total_infractions c)"

text \<open>Two record sets whose stored totals disagree with the daily breakdown.\<close>

definition mismatch_week :: week_data where
  "mismatch_week =
     [(''A'', \<lparr>cd_camera = Some ''Arch'', cd_uptime = Some ''2 days'',
                cd_used_storage = Some ''7%'', cd_total = Some 10,
                cd_infractions = Some [(''2024-01-05'', 4)],
                cd_frames = Some [(''2024-01-05'', 40)]\<rparr>)]"

definition offsetting_week :: week_data where
  "offsetting_week =
     [(''A'', \<lparr>cd_camera = Some ''Arch'', cd_uptime = Some ''2 days'',
                cd_used_storage = Some ''7%'', cd_total = Some 1,
                cd_infractions = Some [], cd_frames = Some []\<rparr>),
      (''B'', \<lparr>cd_camera = Some ''Bridge'', cd_uptime = Some ''2 days'',
                cd_used_storage = Some ''8%'', cd_total = Some 0,
                cd_infractions = Some [(''2024-01-05'', 1)], cd_frames = Some []\<rparr>)]"

definition offsetting_rollup :: month_data where
  "offsetting_rollup =
     \<lparr>md_total_infractions = 1, md_total_frames = 0,
      md_cameras =
        [(''A'', \<lparr>mc_name = ''Arch'', mc_total_infractions = 1, mc_total_frames = 0,
                  mc_weeks_active = 1\<rparr>),
         (''B'', \<lparr>mc_name = ''Bridge'', mc_total_infractions = 0, mc_total_frames = 0,
                  mc_weeks_active = 1\<rparr>)],
      md_daily_totals = [(''2024-01-05'', \<lparr>dt_infractions = 1, dt_frames = 0\<rparr>)],
      md_week_summaries = [\<lparr>ws_week = 1, ws_infractions = 1, ws_frames = 0\<rparr>]\<rparr>"

section \<open>The expected search result\<close>

text \<open>
  A candidate is one (week, camera, date, count) tuple of the scanned record sets, with
  the camera's record. The candidates are listed in the order of the scan.
\<close>

type_synonym candidate = "int \<times> string \<times> camera_data \<times> string \<times> int"

definition camera_candidates :: "int \<Rightarrow> string \<times> camera_data \<Rightarrow> candidate list" where
  "camera_candidates week entry =
     (case entry of (camera_id, cd) \<Rightarrow>
        map (\<lambda>entry. (week, camera_id, cd, entry)) (get_dict (cd_infractions cd)))"

definition week_candidates :: "int \<Rightarrow> week_data \<Rightarrow> candidate list" where
  "week_candidates week data = concat (map (camera_candidates week) data)"

definition candidates :: "(int \<Rightarrow> week_data option) \<Rightarrow> int list \<Rightarrow> candidate list" where
  "candidates fetch weeks =
     concat (map (\<lambda>week. case fetch week of None \<Rightarrow> []
                                          | Some data \<Rightarrow> week_candidates week data) weeks)"

text \<open>
  The criteria: the date is equal when one is set, the count is at least the minimum and
  at most the maximum when these are set. A date is set when it is given and not empty.
\<close>

definition criteria_hold :: "search_params \<Rightarrow> candidate \<Rightarrow> bool" where
  "criteria_hold p c =
     (case c of (week, camera_id, cd, date, cnt) \<Rightarrow>
        (case sp_date p of None \<Rightarrow> True | Some d \<Rightarrow> d = [] \<or> date = d) \<and>
        (case sp_min_infractions p of None \<Rightarrow> True | Some lo \<Rightarrow> lo \<le> cnt) \<and>
        (case sp_max_infractions p of None \<Rightarrow> True | Some hi \<Rightarrow> cnt \<le> hi))"

text \<open>The match of a candidate: its frame count is the camera's frame entry of that date,
  0 when there is none.\<close>

definition make_match :: "candidate \<Rightarrow> search_match" where
  "make_match c =
     (case c of (week, camera_id, cd, date, cnt) \<Rightarrow>
        \<lparr>m_week = week, m_camera_id = camera_id,
         m_camera_name = (case cd_camera cd of None \<Rightarrow> [] | Some name \<Rightarrow> name),
         m_date = date, m_infractions = cnt,
         m_frames = (case map_of (get_dict (cd_frames cd)) date of None \<Rightarrow> 0 | Some f \<Rightarrow> f)\<rparr>)"

definition named :: "candidate \<Rightarrow> bool" where
  "named c = (case c of (week, camera_id, cd, date, cnt) \<Rightarrow> cd_camera cd \<noteq> None)"

text \<open>The order of the result: ascending date, then descending count.\<close>

definition date_then_count :: "search_match \<Rightarrow> search_match \<Rightarrow> bool" where
  "date_then_count a b =
     (m_date a < m_date b \<or> (m_date a = m_date b \<and> m_infractions b \<le> m_infractions a))"

text \<open>What identifies a match and a candidate: the week, the camera and the date.\<close>

definition match_triple :: "search_match \<Rightarrow> int \<times> string \<times> string" where
  "match_triple m = (m_week m, m_camera_id m, m_date m)"

definition candidate_triple :: "candidate \<Rightarrow> int \<times> string \<times> string" where
  "candidate_triple c = (case c of (week, camera_id, cd, date, cnt) \<Rightarrow> (week, camera_id, date))"

text \<open>JSON objects have each key once, and the weeks of a month are listed once.\<close>

definition unique_keys :: "(int \<Rightarrow> week_data option) \<Rightarrow> int list \<Rightarrow> bool" where
  "unique_keys fetch weeks =
     (distinct weeks \<and>
      list_all (\<lambda>week. case fetch week of
                  None \<Rightarrow> True
                | Some data \<Rightarrow>
                    distinct (map fst data) \<and>
                    list_all (\<lambda>e. distinct (map fst (get_dict (cd_infractions (snd e))))) data)
        weeks)"

definition no_criteria :: search_params where
  "no_criteria = \<lparr>sp_date = None, sp_min_infractions = None, sp_max_infractions = None\<rparr>"

definition depot_week_1 :: search_match where
  "depot_week_1 =
     \<lparr>m_week = 1, m_camera_id = ''D'', m_camera_name = ''Depot'', m_date = ''2024-01-01'',
      m_infractions = 3, m_frames = 30\<rparr>"

definition depot_week_2 :: search_match where
  "depot_week_2 =
     \<lparr>m_week = 2, m_camera_id = ''D'', m_camera_name = ''Depot'', m_date = ''2024-01-01'',
      m_infractions = 5, m_frames = 50\<rparr>"

text \<open>A week whose first camera has no display name.\<close>

definition nameless_camera :: camera_data where
  "nameless_camera =
     \<lparr>cd_camera = None, cd_uptime = Some ''4 days'', cd_used_storage = Some ''3%'',
      cd_total = Some 2, cd_infractions = Some [(''2024-01-02'', 2)],
      cd_frames = Some [(''2024-01-02'', 20)]\<rparr>"

definition nameless_week :: week_data where
  "nameless_week = [(''1'', nameless_camera), (''2'', camera_one_in_three)]"

section \<open>Rounding\<close>






section \<open>Statistics\<close>





lemma min_list_eq: "xs \<noteq> [] \<Longrightarrow> min_list xs = Inr (Min (set xs))"
  by (cases xs) (simp_all add: Min.set_eq_fold [symmetric])

lemma max_list_eq: "xs \<noteq> [] \<Longrightarrow> max_list xs = Inr (Max (set xs))"
  by (cases xs) (simp_all add: Max.set_eq_fold [symmetric])

lemma sort_nth_bounds:
  assumes "i < length xs"
  shows "Min (set xs) \<le> sort xs ! i" and "sort xs ! i \<le> Max (set (xs::rat list))"
proof -
  have "sort xs ! i \<in> set (sort xs)" using assms by (intro nth_mem) simp
  then have m: "sort xs ! i \<in> set xs" by simp
  then show "Min (set xs) \<le> sort xs ! i" by simp
  from m show "sort xs ! i \<le> Max (set xs)" by simp
qed

lemma median_bounds:
  assumes "xs \<noteq> []"
  shows "\<exists>md. median xs = Inr md \<and> Min (set xs) \<le> md \<and> md \<le> Max (set xs)"
proof -
  let ?n = "length xs"
  have n: "0 < ?n" using assms by simp
  have s: "sort xs \<noteq> []" using assms by (metis length_sort length_0_conv)
  show ?thesis
  proof (cases "?n mod 2 = 1")
    case True
    have "?n div 2 < ?n" using n by simp
    from sort_nth_bounds [OF this] True n s show ?thesis
      by (simp add: median_def Let_def)
  next
    case False
    have a: "?n div 2 < ?n" using n by simp
    have b: "?n div 2 - 1 < ?n" using a by (rule less_imp_diff_less)
    let ?x = "sort xs ! (?n div 2 - 1)" and ?y = "sort xs ! (?n div 2)"
    have m: "median xs = Inr ((?x + ?y) / 2)"
      using False n s by (simp add: median_def Let_def)
    have "Min (set xs) \<le> (?x + ?y) / 2" "(?x + ?y) / 2 \<le> Max (set xs)"
      using sort_nth_bounds [OF a] sort_nth_bounds [OF b] by simp_all
    with m show ?thesis by blast
  qed
qed




section \<open>Efficiency\<close>

lemma calculate_statistics_total: "\<exists>s. calculate_statistics vals = Inr s"
proof (cases "vals = []")
  case True
  then show ?thesis by (simp add: calculate_statistics_def)
next
  case False
  from median_bounds [OF False] obtain md where "median vals = Inr md" by blast
  with False show ?thesis
    by (simp add: calculate_statistics_def and_then_def mean_def min_list_eq max_list_eq)
qed

lemma daily_avg_total: "\<exists>a. daily_avg vals = Inr a"
  by (simp add: daily_avg_def and_then_def mean_def)


lemma rounded_efficiency_eq:
  "rounded_efficiency i f = Inr (if 0 < f then round2 (of_int i / of_int f * 100) else 0)"
  by (simp add: rounded_efficiency_def truediv_def and_then_def)























section \<open>Metric validation\<close>

text \<open>
  C9 (unsupported metric). A request whose metric is none of \<open>infractions\<close>, \<open>frames\<close>,
  \<open>efficiency\<close> is rejected by the validator with a \<open>ValueError\<close>, whatever the week
  lookup would return: the record set is never read, and the default 0 of the metric
  chain is never reached.
\<close>

theorem invalid_metric_rejected:
  assumes "metric \<notin> {''infractions'', ''frames'', ''efficiency''}"
  shows "compare_cameras_request fetch week_number metric =
           Inl (ValueError ''Metric must be infractions, frames, or efficiency'')"
  using assms by (simp add: compare_cameras_request_def validate_metric_def)

theorem invalid_metric_rejected_witness:
  "compare_cameras_request (one_week [(''1'', camera_one_in_three)]) 1 ''speed'' =
     Inl (ValueError ''Metric must be infractions, frames, or efficiency'')"
  using invalid_metric_rejected [of "''speed''" "one_week [(''1'', camera_one_in_three)]" 1]
  by simp

section \<open>Ranking\<close>








section \<open>Additive merge\<close>

lemma day_count_distinct:
  "distinct (map fst items) \<Longrightarrow> map_of items date = Some c \<Longrightarrow> day_count items date = c"
proof (induction items)
  case Nil
  then show ?case by simp
next
  case (Cons e items)
  show ?case
  proof (cases "fst e = date")
    case True
    with Cons.prems have "date \<notin> fst ` set items" by simp
    then have "filter (\<lambda>e. fst e = date) items = []"
      by (force simp add: filter_empty_conv)
    with True Cons.prems show ?thesis by (simp add: day_count_def)
  next
    case False
    with Cons show ?thesis by (simp add: day_count_def)
  qed
qed

lemma day_count_absent: "date \<notin> fst ` set items \<Longrightarrow> day_count items date = 0"
proof -
  assume "date \<notin> fst ` set items"
  then have "filter (\<lambda>e. fst e = date) items = []" by (force simp add: filter_empty_conv)
  then show ?thesis by (simp add: day_count_def)
qed

lemma map_of_aggregate_daily:
  "map_of (aggregate_daily daily items) date =
     (if has_key daily date \<or> date \<in> fst ` set items then
        Some (get0 daily date + day_count items date)
      else None)"
proof (induction items arbitrary: daily)
  case Nil
  then show ?case by (auto simp add: has_key_def get0_def day_count_def)
next
  case (Cons e items)
  obtain d cnt where e: "e = (d, cnt)" by (cases e)
  let ?daily = "AList.map_entry d (\<lambda>v. v + cnt)
                  (if \<not> has_key daily d then AList.update d 0 daily else daily)"
  have m: "map_of ?daily date =
             (if date = d then Some (get0 daily d + cnt) else map_of daily date)"
    by (auto simp add: AList.map_of_map_entry AList.update_conv' has_key_def get0_def
        split: option.splits)
  then have h: "has_key ?daily date \<longleftrightarrow> has_key daily date \<or> date = d"
    and g: "get0 ?daily date = get0 daily date + (if date = d then cnt else 0)"
    by (auto simp add: has_key_def get0_def)
  have "map_of (aggregate_daily daily (e # items)) date =
          map_of (aggregate_daily ?daily items) date"
    by (simp add: e)
  also have "\<dots> = (if has_key ?daily date \<or> date \<in> fst ` set items then
                      Some (get0 ?daily date + day_count items date) else None)"
    by (rule Cons.IH)
  also have "\<dots> = (if has_key daily date \<or> date \<in> fst ` set (e # items) then
                      Some (get0 daily date + day_count (e # items) date) else None)"
    unfolding h g by (auto simp add: e day_count_def)
  finally show ?case .
qed


lemma collect_camera_entry_day:
  assumes "collect_camera flt week ad (cid', cd) = Inr ad'" and "daily_pair F field"
  shows "entry_day F ad' cid date =
     (if cid' = cid \<and> \<not> skip_camera flt cid' then
        (if entry_day F ad cid date \<noteq> None \<or> date \<in> fst ` set (get_dict (field cd)) then
           Some (opt0 (entry_day F ad cid date) + day_count (get_dict (field cd)) date)
         else None)
      else entry_day F ad cid date)"
proof (cases "skip_camera flt cid'")
  case True
  with assms show ?thesis by (simp add: collect_camera_def)
next
  case False
  from assms(1) False obtain entry t where
    i: "init_entry ad cid' cd = Inr entry" and t: "cd_total cd = Some t"
    and ad': "ad' = AList.update cid'
                (entry\<lparr>ad_weeks := ad_weeks entry @ [week],
                       ad_infractions := ad_infractions entry @ [t],
                       ad_daily_infractions :=
                         aggregate_daily (ad_daily_infractions entry) (get_dict (cd_infractions cd)),
                       ad_daily_frames :=
                         aggregate_daily (ad_daily_frames entry) (get_dict (cd_frames cd))\<rparr>)
                ad"
    by (auto simp add: collect_camera_def and_then_def getitem_def
        split: sum.splits option.splits)
  show ?thesis
  proof (cases "cid' = cid")
    case False
    then show ?thesis by (simp add: ad' entry_day_def AList.update_conv')
  next
    case True
    have e: "map_of (F entry) date = entry_day F ad cid date"
      using i assms(2) True
      by (auto simp add: init_entry_def entry_day_def and_then_def getitem_def daily_pair_def
          split: option.splits)
    have "entry_day F ad' cid date =
            map_of (aggregate_daily (F entry) (get_dict (field cd))) date"
      using assms(2) True by (auto simp add: ad' entry_day_def AList.update_conv' daily_pair_def)
    also have "\<dots> = (if map_of (F entry) date \<noteq> None \<or> date \<in> fst ` set (get_dict (field cd))
                      then Some (opt0 (map_of (F entry) date) + day_count (get_dict (field cd)) date)
                      else None)"
      by (simp add: map_of_aggregate_daily has_key_def get0_def opt0_def)
    finally show ?thesis using True \<open>\<not> skip_camera flt cid'\<close> by (simp add: e)
  qed
qed

lemma collect_cameras_entry_day:
  assumes "collect_cameras flt week ad data = Inr ad'" and "daily_pair F field"
    and "\<not> skip_camera flt cid"
  shows "opt0 (entry_day F ad' cid date) =
           opt0 (entry_day F ad cid date) + week_day_count field data cid date"
    and "entry_day F ad' cid date \<noteq> None \<longleftrightarrow>
           entry_day F ad cid date \<noteq> None \<or>
           (\<exists>cd. (cid, cd) \<in> set data \<and> date \<in> fst ` set (get_dict (field cd)))"
  using assms(1)
proof (induction data arbitrary: ad)
  case Nil
  {
    case 1 then show ?case by (simp add: week_day_count_def)
  next
    case 2 then show ?case by simp
  }
next
  case (Cons e data)
  obtain cid' cd where e: "e = (cid', cd)" by (cases e)
  {
    case 1
    then obtain ad1 where s: "collect_camera flt week ad (cid', cd) = Inr ad1"
      and r: "collect_cameras flt week ad1 data = Inr ad'"
      by (auto simp add: e split: sum.splits)
    from Cons.IH(1) [OF r] collect_camera_entry_day [OF s assms(2), of cid date] assms(3)
    show ?case
      by (auto simp add: e week_day_count_def opt0_def day_count_absent split: if_splits)
  next
    case 2
    then obtain ad1 where s: "collect_camera flt week ad (cid', cd) = Inr ad1"
      and r: "collect_cameras flt week ad1 data = Inr ad'"
      by (auto simp add: e split: sum.splits)
    from Cons.IH(2) [OF r] collect_camera_entry_day [OF s assms(2), of cid date] assms(3)
    show ?case
      by (auto simp add: e split: if_splits)
  }
qed


lemma collect_weeks_step:
  assumes p: "collect_weeks fetch flt ad (week # weeks) = Inr ad'" and "daily_pair F field"
    and "\<not> skip_camera flt cid"
  shows "\<exists>ad1. collect_weeks fetch flt ad1 weeks = Inr ad' \<and>
      opt0 (entry_day F ad1 cid date) =
        opt0 (entry_day F ad cid date) +
        (case fetch week of None \<Rightarrow> 0 | Some data \<Rightarrow> week_day_count field data cid date) \<and>
      (entry_day F ad1 cid date \<noteq> None \<longleftrightarrow>
         entry_day F ad cid date \<noteq> None \<or>
         (\<exists>data cd. fetch week = Some data \<and> (cid, cd) \<in> set data \<and>
            date \<in> fst ` set (get_dict (field cd))))"
proof (cases "fetch week")
  case None
  with p show ?thesis by auto
next
  case (Some data)
  show ?thesis
  proof (cases "data = []")
    case True
    with p Some show ?thesis by (auto simp add: week_day_count_def)
  next
    case False
    with p Some obtain ad1 where c: "collect_cameras flt week ad data = Inr ad1"
      and r: "collect_weeks fetch flt ad1 weeks = Inr ad'"
      by (auto split: sum.splits)
    from collect_cameras_entry_day [OF c assms(2,3), of date] r Some
    show ?thesis by auto
  qed
qed

lemma collect_weeks_entry_day:
  assumes "collect_weeks fetch flt ad weeks = Inr ad'" and "daily_pair F field"
    and "\<not> skip_camera flt cid"
  shows "opt0 (entry_day F ad' cid date) =
           opt0 (entry_day F ad cid date) + weeks_day_count field fetch weeks cid date"
    and "entry_day F ad' cid date \<noteq> None \<longleftrightarrow>
           entry_day F ad cid date \<noteq> None \<or>
           (\<exists>week\<in>set weeks. \<exists>data cd. fetch week = Some data \<and> (cid, cd) \<in> set data \<and>
              date \<in> fst ` set (get_dict (field cd)))"
  using assms(1)
proof (induction weeks arbitrary: ad)
  case Nil
  {
    case 1 then show ?case by (simp add: weeks_day_count_def)
  next
    case 2 then show ?case by simp
  }
next
  case (Cons week weeks)
  {
    case 1
    from collect_weeks_step [OF 1 assms(2,3), of date]
    obtain ad1 where r: "collect_weeks fetch flt ad1 weeks = Inr ad'"
      and v: "opt0 (entry_day F ad1 cid date) =
        opt0 (entry_day F ad cid date) +
        (case fetch week of None \<Rightarrow> 0 | Some data \<Rightarrow> week_day_count field data cid date)"
      by blast
    from Cons.IH(1) [OF r] v show ?case by (simp add: weeks_day_count_def)
  next
    case 2
    from collect_weeks_step [OF 2 assms(2,3), of date]
    obtain ad1 where r: "collect_weeks fetch flt ad1 weeks = Inr ad'"
      and h: "entry_day F ad1 cid date \<noteq> None \<longleftrightarrow>
         entry_day F ad cid date \<noteq> None \<or>
         (\<exists>data cd. fetch week = Some data \<and> (cid, cd) \<in> set data \<and>
            date \<in> fst ` set (get_dict (field cd)))"
      by blast
    from Cons.IH(2) [OF r] h show ?case by auto
  }
qed

lemma week_day_count_distinct:
  assumes "distinct (map fst data)" and "map_of data cid = Some cd"
  shows "week_day_count field data cid date = day_count (get_dict (field cd)) date"
  using assms
proof (induction data)
  case Nil
  then show ?case by simp
next
  case (Cons e data)
  show ?case
  proof (cases "fst e = cid")
    case True
    with Cons.prems have "cid \<notin> fst ` set data" by simp
    then have "filter (\<lambda>e. fst e = cid) data = []" by (force simp add: filter_empty_conv)
    with True Cons.prems show ?thesis by (simp add: week_day_count_def)
  next
    case False
    with Cons show ?thesis by (simp add: week_day_count_def)
  qed
qed

lemma additive_merge_two_weeks:
  assumes c: "collect_weeks fetch flt [] [w1, w2] = Inr all_data"
    and p: "daily_pair F field" and s: "\<not> skip_camera flt cid"
    and f: "fetch w1 = Some data1" "fetch w2 = Some data2"
    and d: "distinct (map fst data1)" "distinct (map fst data2)"
    and m: "map_of data1 cid = Some cd1" "map_of data2 cid = Some cd2"
    and di: "distinct (map fst (get_dict (field cd1)))" "distinct (map fst (get_dict (field cd2)))"
    and mi: "map_of (get_dict (field cd1)) date = Some c1"
            "map_of (get_dict (field cd2)) date = Some c2"
  shows "entry_day F all_data cid date = Some (c1 + c2)"
proof -
  have "weeks_day_count field fetch [w1, w2] cid date = c1 + c2"
    by (simp add: weeks_day_count_def f week_day_count_distinct [OF d(1) m(1)]
        week_day_count_distinct [OF d(2) m(2)] day_count_distinct [OF di(1) mi(1)]
        day_count_distinct [OF di(2) mi(2)])
  with collect_weeks_entry_day(1) [OF c p s, of date]
  have v: "opt0 (entry_day F all_data cid date) = c1 + c2"
    by (simp add: entry_day_def opt0_def)
  have "(cid, cd1) \<in> set data1" using m(1) by (rule map_of_SomeD)
  moreover have "date \<in> fst ` set (get_dict (field cd1))"
    using map_of_SomeD [OF mi(1)] by force
  ultimately have "entry_day F all_data cid date \<noteq> None"
    using collect_weeks_entry_day(2) [OF c p s, of date] f(1) by auto
  with v show ?thesis by (auto simp add: opt0_def)
qed

text \<open>
  C2 (additive merge). In the rollup that the performance analysis builds over a list of
  weeks, a camera that is not filtered out and a date that some week's record of the
  camera holds: the camera's merged daily mapping (infractions or frames) holds the date,
  and maps it to the sum, over the weeks that are there, of the counts the camera's
  records give that date. Counts add; a later week never overwrites an earlier one.
\<close>

theorem additive_merge:
  assumes "collect_weeks fetch flt [] weeks = Inr all_data"
    and "daily_pair F field"
    and "\<not> skip_camera flt camera_id"
    and "week \<in> set weeks" and "fetch week = Some data" and "(camera_id, cd) \<in> set data"
    and "date \<in> fst ` set (get_dict (field cd))"
  shows "entry_day F all_data camera_id date =
           Some (weeks_day_count field fetch weeks camera_id date)"
proof -
  from collect_weeks_entry_day(2) [OF assms(1,2,3), of date] assms(4-7)
  have "entry_day F all_data camera_id date \<noteq> None" by blast
  moreover from collect_weeks_entry_day(1) [OF assms(1,2,3), of date]
  have "opt0 (entry_day F all_data camera_id date) =
          weeks_day_count field fetch weeks camera_id date"
    by (simp add: entry_day_def opt0_def)
  ultimately show ?thesis by (auto simp add: opt0_def)
qed

text \<open>The specification's example: 3 in the first week and 5 in the second make 8.\<close>

theorem additive_merge_witness:
  "\<exists>all_data. collect_weeks merge_example None [] [1, 2] = Inr all_data \<and>
     entry_day ad_daily_infractions all_data ''D'' ''2024-01-01'' = Some 8 \<and>
     entry_day ad_daily_frames all_data ''D'' ''2024-01-01'' = Some 80"
proof -
  define all_data where
    "all_data = [(''D'', \<lparr>ad_name = ''Depot'', ad_weeks = [1, 2], ad_infractions = [3, 5],
                          ad_frames = [], ad_daily_infractions = [(''2024-01-01'', 8)],
                          ad_daily_frames = [(''2024-01-01'', 80)]\<rparr>)]"
  have c: "collect_weeks merge_example None [] [1, 2] = Inr all_data"
    unfolding all_data_def by code_simp
  have s: "\<not> skip_camera None ''D''" by (simp add: skip_camera_def)
  have w: "(1::int) \<in> set [1, 2]" by simp
  note f = merge_example_def [of 1, simplified]
  have i: "weeks_day_count cd_infractions merge_example [1, 2] ''D'' ''2024-01-01'' = 8"
    by code_simp
  have fr: "weeks_day_count cd_frames merge_example [1, 2] ''D'' ''2024-01-01'' = 80"
    by code_simp
  have "entry_day ad_daily_infractions all_data ''D'' ''2024-01-01'' = Some 8"
    using additive_merge [where F = ad_daily_infractions and field = cd_infractions
        and date = "''2024-01-01''", OF c _ s w f] i
    by (simp add: daily_pair_def get_dict_def)
  moreover have "entry_day ad_daily_frames all_data ''D'' ''2024-01-01'' = Some 80"
    using additive_merge [where F = ad_daily_frames and field = cd_frames
        and date = "''2024-01-01''", OF c _ s w f] fr
    by (simp add: daily_pair_def get_dict_def)
  ultimately show ?thesis using c by blast
qed

section \<open>Missing weeks\<close>




lemma add_infractions_eq:
  "\<exists>dt. add_infractions (md, wi) items =
          (md\<lparr>md_daily_totals := dt\<rparr>, wi + sum_list (map snd items))"
proof (induction items arbitrary: md wi)
  case Nil
  show ?case by (rule exI [of _ "md_daily_totals md"]) simp
next
  case (Cons e items)
  obtain d cnt where e: "e = (d, cnt)" by (cases e)
  let ?md = "md\<lparr>md_daily_totals :=
             AList.map_entry d (\<lambda>x. x\<lparr>dt_infractions := dt_infractions x + cnt\<rparr>)
               (ensure_day (md_daily_totals md) d)\<rparr>"
  from Cons [of ?md "wi + cnt"] obtain dt where
    "add_infractions (?md, wi + cnt) items =
       (?md\<lparr>md_daily_totals := dt\<rparr>, wi + cnt + sum_list (map snd items))" by blast
  then show ?case by (intro exI [of _ dt]) (simp add: e)
qed

lemma map_entry_id: "(\<And>v. f v = v) \<Longrightarrow> AList.map_entry k f xs = xs"
  by (induction xs) auto

lemma map_entry_twice:
  "AList.map_entry k f (AList.map_entry k g xs) = AList.map_entry k (\<lambda>v. f (g v)) xs"
  by (induction xs) auto

lemma add_frames_eq:
  "\<exists>dt. add_frames camera_id (md, wfr) items =
          (md\<lparr>md_daily_totals := dt,
              md_cameras :=
                AList.map_entry camera_id
                  (\<lambda>c. c\<lparr>mc_total_frames := mc_total_frames c + sum_list (map snd items)\<rparr>)
                  (md_cameras md)\<rparr>,
           wfr + sum_list (map snd items))"
proof (induction items arbitrary: md wfr)
  case Nil
  show ?case by (rule exI [of _ "md_daily_totals md"]) (simp add: map_entry_id)
next
  case (Cons e items)
  obtain d cnt where e: "e = (d, cnt)" by (cases e)
  let ?md = "md\<lparr>md_daily_totals :=
             AList.map_entry d (\<lambda>x. x\<lparr>dt_frames := dt_frames x + cnt\<rparr>)
               (ensure_day (md_daily_totals md) d),
           md_cameras :=
             AList.map_entry camera_id (\<lambda>c. c\<lparr>mc_total_frames := mc_total_frames c + cnt\<rparr>)
               (md_cameras md)\<rparr>"
  from Cons [of ?md "wfr + cnt"] obtain dt where
    "add_frames camera_id (?md, wfr + cnt) items =
       (?md\<lparr>md_daily_totals := dt,
            md_cameras :=
              AList.map_entry camera_id
                (\<lambda>c. c\<lparr>mc_total_frames := mc_total_frames c + sum_list (map snd items)\<rparr>)
                (md_cameras ?md)\<rparr>,
        wfr + cnt + sum_list (map snd items))" by blast
  then show ?case
    by (intro exI [of _ dt]) (simp add: e map_entry_twice add.assoc)
qed


lemma month_camera_step_eq:
  assumes "month_camera_step (md, wi, wfr) (camera_id, cd) = Inr (md', wi', wfr')"
  shows "\<exists>t cams1.
      cd_total cd = Some t \<and>
      (has_key (md_cameras md) camera_id \<and> cams1 = md_cameras md \<or>
       \<not> has_key (md_cameras md) camera_id \<and>
       (\<exists>name. cd_camera cd = Some name \<and>
          cams1 = AList.update camera_id
                    \<lparr>mc_name = name, mc_total_infractions = 0, mc_total_frames = 0,
                     mc_weeks_active = 0\<rparr> (md_cameras md))) \<and>
      md_cameras md' =
        AList.map_entry camera_id
          (\<lambda>c. c\<lparr>mc_total_infractions := mc_total_infractions c + t,
                 mc_weeks_active := mc_weeks_active c + 1,
                 mc_total_frames :=
                   mc_total_frames c + sum_list (map snd (get_dict (cd_frames cd)))\<rparr>)
          cams1 \<and>
      wi' = wi + sum_list (map snd (get_dict (cd_infractions cd))) \<and>
      wfr' = wfr + sum_list (map snd (get_dict (cd_frames cd))) \<and>
      md_week_summaries md' = md_week_summaries md \<and>
      md_total_infractions md' = md_total_infractions md \<and>
      md_total_frames md' = md_total_frames md"
proof -
  from assms obtain md1 t where i: "init_camera md camera_id cd = Inr md1"
    and t: "cd_total cd = Some t"
    by (auto simp add: month_camera_step_def and_then_def getitem_def
        split: sum.splits option.splits)
  let ?md2 = "md1\<lparr>md_cameras :=
                AList.map_entry camera_id
                  (\<lambda>c. c\<lparr>mc_total_infractions := mc_total_infractions c + t,
                         mc_weeks_active := mc_weeks_active c + 1\<rparr>)
                  (md_cameras md1)\<rparr>"
  obtain dt3 where a3: "add_infractions (?md2, wi) (get_dict (cd_infractions cd)) =
      (?md2\<lparr>md_daily_totals := dt3\<rparr>, wi + sum_list (map snd (get_dict (cd_infractions cd))))"
    using add_infractions_eq by blast
  obtain dt4 where a4: "add_frames camera_id (?md2\<lparr>md_daily_totals := dt3\<rparr>, wfr)
        (get_dict (cd_frames cd)) =
      (?md2\<lparr>md_daily_totals := dt3\<rparr>
         \<lparr>md_daily_totals := dt4,
          md_cameras :=
            AList.map_entry camera_id
              (\<lambda>c. c\<lparr>mc_total_frames :=
                       mc_total_frames c + sum_list (map snd (get_dict (cd_frames cd)))\<rparr>)
              (md_cameras (?md2\<lparr>md_daily_totals := dt3\<rparr>))\<rparr>,
       wfr + sum_list (map snd (get_dict (cd_frames cd))))"
    using add_frames_eq by blast
  from assms i t a3 a4 have r: "md' = ?md2\<lparr>md_daily_totals := dt3\<rparr>
         \<lparr>md_daily_totals := dt4,
          md_cameras :=
            AList.map_entry camera_id
              (\<lambda>c. c\<lparr>mc_total_frames :=
                       mc_total_frames c + sum_list (map snd (get_dict (cd_frames cd)))\<rparr>)
              (md_cameras (?md2\<lparr>md_daily_totals := dt3\<rparr>))\<rparr>"
    and w: "wi' = wi + sum_list (map snd (get_dict (cd_infractions cd)))"
      "wfr' = wfr + sum_list (map snd (get_dict (cd_frames cd)))"
    by (simp_all add: month_camera_step_def and_then_def getitem_def Let_def)
  from i have c1: "has_key (md_cameras md) camera_id \<and> md_cameras md1 = md_cameras md \<or>
       \<not> has_key (md_cameras md) camera_id \<and>
       (\<exists>name. cd_camera cd = Some name \<and>
          md_cameras md1 = AList.update camera_id
                    \<lparr>mc_name = name, mc_total_infractions = 0, mc_total_frames = 0,
                     mc_weeks_active = 0\<rparr> (md_cameras md))"
    and o: "md_week_summaries md1 = md_week_summaries md"
      "md_total_infractions md1 = md_total_infractions md"
      "md_total_frames md1 = md_total_frames md"
    by (auto simp add: init_camera_def and_then_def getitem_def split: if_splits option.splits)
  show ?thesis
    apply (rule exI [where x = t])
    apply (rule exI [where x = "md_cameras md1"])
    using t c1 o w by (simp add: r map_entry_twice)
qed


lemma sum_map_entry:
  assumes "has_key xs k" and "\<And>c. mc_total_infractions (f c) = mc_total_infractions c + t"
  shows "sum_list (map (\<lambda>e. mc_total_infractions (snd e)) (AList.map_entry k f xs)) =
         sum_list (map (\<lambda>e. mc_total_infractions (snd e)) xs) + t"
  using assms(1)
proof (induction xs)
  case Nil
  then show ?case by (simp add: has_key_def)
next
  case (Cons e xs)
  then show ?case by (cases "fst e = k") (auto simp add: has_key_def assms(2))
qed

lemma sum_update_new:
  "\<not> has_key xs k \<Longrightarrow>
   sum_list (map (\<lambda>e. mc_total_infractions (snd e)) (AList.update k v xs)) =
   sum_list (map (\<lambda>e. mc_total_infractions (snd e)) xs) + mc_total_infractions v"
  by (induction xs) (auto simp add: has_key_def)

lemma month_camera_step_totals:
  assumes "month_camera_step (md, wi, wfr) (camera_id, cd) = Inr (md', wi', wfr')"
  shows "wi' = wi + daily_sum cd" and "wfr' = wfr + frame_sum cd"
    and "device_sum md' = device_sum md + opt0 (cd_total cd)"
    and "camera_total md' cid =
           camera_total md cid + (if camera_id = cid then opt0 (cd_total cd) else 0)"
    and "md_week_summaries md' = md_week_summaries md"
    and "md_total_infractions md' = md_total_infractions md"
    and "md_total_frames md' = md_total_frames md"
proof -
  from month_camera_step_eq [OF assms] obtain t cams1 where
    t: "cd_total cd = Some t"
    and c1: "has_key (md_cameras md) camera_id \<and> cams1 = md_cameras md \<or>
       \<not> has_key (md_cameras md) camera_id \<and>
       (\<exists>name. cd_camera cd = Some name \<and>
          cams1 = AList.update camera_id
                    \<lparr>mc_name = name, mc_total_infractions = 0, mc_total_frames = 0,
                     mc_weeks_active = 0\<rparr> (md_cameras md))"
    and c: "md_cameras md' =
        AList.map_entry camera_id
          (\<lambda>c. c\<lparr>mc_total_infractions := mc_total_infractions c + t,
                 mc_weeks_active := mc_weeks_active c + 1,
                 mc_total_frames :=
                   mc_total_frames c + sum_list (map snd (get_dict (cd_frames cd)))\<rparr>)
          cams1"
    and w: "wi' = wi + sum_list (map snd (get_dict (cd_infractions cd)))"
      "wfr' = wfr + sum_list (map snd (get_dict (cd_frames cd)))"
    and o: "md_week_summaries md' = md_week_summaries md"
      "md_total_infractions md' = md_total_infractions md"
      "md_total_frames md' = md_total_frames md"
    by blast
  from w show "wi' = wi + daily_sum cd" "wfr' = wfr + frame_sum cd"
    by (simp_all add: daily_sum_def frame_sum_def)
  from o show "md_week_summaries md' = md_week_summaries md"
    "md_total_infractions md' = md_total_infractions md"
    "md_total_frames md' = md_total_frames md" by simp_all
  have h1: "has_key cams1 camera_id"
    using c1 by (auto simp add: has_key_def AList.update_conv')
  have s1: "sum_list (map (\<lambda>e. mc_total_infractions (snd e)) cams1) = device_sum md"
    using c1 by (auto simp add: device_sum_def sum_update_new)
  show "device_sum md' = device_sum md + opt0 (cd_total cd)"
    unfolding device_sum_def c
    by (subst sum_map_entry [OF h1, where t = t]) (simp_all add: s1 [unfolded device_sum_def] t opt0_def)
  have m1: "(case map_of cams1 cid of None \<Rightarrow> 0 | Some c \<Rightarrow> mc_total_infractions c) =
            camera_total md cid"
    using c1 by (cases "cid = camera_id")
      (auto simp add: camera_total_def AList.update_conv' has_key_def split: option.splits)
  show "camera_total md' cid =
           camera_total md cid + (if camera_id = cid then opt0 (cd_total cd) else 0)"
    using m1 h1
    by (auto simp add: camera_total_def c AList.map_of_map_entry t opt0_def has_key_def
        split: option.splits)
qed


lemma month_cameras_totals:
  assumes "month_cameras (md, wi, wfr) data = Inr (md', wi', wfr')"
  shows "wi' = wi + week_daily_sum data \<and> wfr' = wfr + week_frame_sum data \<and>
         device_sum md' = device_sum md + week_stored data \<and>
         camera_total md' cid = camera_total md cid + week_stored_total data cid \<and>
         md_week_summaries md' = md_week_summaries md \<and>
         md_total_infractions md' = md_total_infractions md \<and>
         md_total_frames md' = md_total_frames md"
  using assms
proof (induction data arbitrary: md wi wfr)
  case Nil
  then show ?case
    by (simp add: week_daily_sum_def week_frame_sum_def week_stored_def week_stored_total_def)
next
  case (Cons e data)
  obtain camera_id cd where e: "e = (camera_id, cd)" by (cases e)
  from Cons.prems obtain md1 wi1 wfr1 where
    s: "month_camera_step (md, wi, wfr) (camera_id, cd) = Inr (md1, wi1, wfr1)"
    and r: "month_cameras (md1, wi1, wfr1) data = Inr (md', wi', wfr')"
    by (auto simp add: e and_then_def split: sum.splits)
  note t = month_camera_step_totals(1,2,3,5,6,7) [OF s]
    month_camera_step_totals(4) [OF s, of cid]
  from Cons.IH [OF r] t show ?case
    by (simp add: e week_daily_sum_def week_frame_sum_def week_stored_def week_stored_total_def)
qed

lemma month_week_totals:
  assumes "month_week md week data = Inr md'"
  shows "md_total_infractions md' = md_total_infractions md + week_daily_sum data \<and>
         md_total_frames md' = md_total_frames md + week_frame_sum data \<and>
         device_sum md' = device_sum md + week_stored data \<and>
         camera_total md' cid = camera_total md cid + week_stored_total data cid \<and>
         md_week_summaries md' =
           md_week_summaries md @
             [\<lparr>ws_week = week, ws_infractions = week_daily_sum data,
               ws_frames = week_frame_sum data\<rparr>]"
proof -
  from assms obtain md1 wi1 wfr1 where
    c: "month_cameras (md, 0, 0) data = Inr (md1, wi1, wfr1)"
    and r: "md' = md1\<lparr>md_week_summaries :=
                    md_week_summaries md1 @
                      [\<lparr>ws_week = week, ws_infractions = wi1, ws_frames = wfr1\<rparr>],
                  md_total_infractions := md_total_infractions md1 + wi1,
                  md_total_frames := md_total_frames md1 + wfr1\<rparr>"
    by (auto simp add: month_week_def and_then_def split: sum.splits)
  from month_cameras_totals [OF c, of cid] show ?thesis
    by (simp add: r device_sum_def camera_total_def)
qed

lemma month_weeks_totals:
  assumes "month_weeks fetch md weeks = Inr md'"
  shows "md_total_infractions md' = md_total_infractions md + all_daily_sum fetch weeks \<and>
         device_sum md' = device_sum md + all_stored_total fetch weeks \<and>
         camera_total md' cid = camera_total md cid + stored_total_sum fetch weeks cid \<and>
         map ws_week (md_week_summaries md') =
           map ws_week (md_week_summaries md) @ filter (\<lambda>week. truthy (fetch week)) weeks"
  using assms
proof (induction weeks arbitrary: md)
  case Nil
  then show ?case by (simp add: all_daily_sum_def all_stored_total_def stored_total_sum_def)
next
  case (Cons week weeks)
  show ?case
  proof (cases "fetch week")
    case None
    with Cons.prems have "month_weeks fetch md weeks = Inr md'" by simp
    from Cons.IH [OF this] None show ?thesis
      by (simp add: all_daily_sum_def all_stored_total_def stored_total_sum_def truthy_def)
  next
    case (Some data)
    show ?thesis
    proof (cases "data = []")
      case True
      with Cons.prems Some have "month_weeks fetch md weeks = Inr md'" by simp
      from Cons.IH [OF this] Some True show ?thesis
        by (simp add: all_daily_sum_def all_stored_total_def stored_total_sum_def truthy_def
            week_daily_sum_def week_stored_def week_stored_total_def)
    next
      case False
      with Cons.prems Some obtain md1 where w: "month_week md week data = Inr md1"
        and r: "month_weeks fetch md1 weeks = Inr md'"
        by (auto simp add: and_then_def split: sum.splits)
      from Cons.IH [OF r] month_week_totals [OF w, of cid] Some False show ?thesis
        by (simp add: all_daily_sum_def all_stored_total_def stored_total_sum_def truthy_def)
    qed
  qed
qed




section \<open>Monthly totals\<close>

lemma matching_week:
  assumes "\<forall>(camera_id, cd)\<in>set data. cd_total cd = Some (daily_sum cd)"
  shows "week_daily_sum data = week_stored data"
proof -
  have "map (\<lambda>e. daily_sum (snd e)) data = map (\<lambda>e. opt0 (cd_total (snd e))) data"
    using assms by (intro map_cong) (auto simp add: opt0_def)
  then show ?thesis unfolding week_daily_sum_def week_stored_def by (rule arg_cong)
qed

lemma matching_weeks:
  assumes "\<forall>week\<in>set weeks. \<forall>data. fetch week = Some data \<longrightarrow>
             (\<forall>(camera_id, cd)\<in>set data. cd_total cd = Some (daily_sum cd))"
  shows "all_daily_sum fetch weeks = all_stored_total fetch weeks"
proof -
  have "map (\<lambda>week. case fetch week of None \<Rightarrow> 0 | Some data \<Rightarrow> week_daily_sum data) weeks =
        map (\<lambda>week. case fetch week of None \<Rightarrow> 0 | Some data \<Rightarrow> week_stored data) weeks"
    using assms by (intro map_cong) (auto simp add: matching_week split: option.splits)
  then show ?thesis unfolding all_daily_sum_def all_stored_total_def by (rule arg_cong)
qed

lemma mismatch_rollup:
  "month_rollup (one_week mismatch_week) [1] =
     Inr \<lparr>md_total_infractions = 4, md_total_frames = 40,
          md_cameras =
            [(''A'', \<lparr>mc_name = ''Arch'', mc_total_infractions = 10, mc_total_frames = 40,
                      mc_weeks_active = 1\<rparr>)],
          md_daily_totals = [(''2024-01-05'', \<lparr>dt_infractions = 4, dt_frames = 40\<rparr>)],
          md_week_summaries = [\<lparr>ws_week = 1, ws_infractions = 4, ws_frames = 40\<rparr>]\<rparr>"
  by code_simp

text \<open>
  C10 (monthly totals). When the monthly rollup succeeds, its overall total of infractions
  is the sum of all daily infraction entries of all cameras over the weeks that are there;
  each camera's own total is the sum of that camera's stored total-count fields, and the
  per-device totals add up to the sum of all stored total-count fields. So the overall
  total equals the sum of the per-device totals exactly when these two sums agree, which
  is the case whenever every stored total matches the sum of its own daily entries; and
  there is an input on which the two figures differ.
\<close>

theorem monthly_totals:
  assumes "month_rollup fetch weeks = Inr md"
  shows "md_total_infractions md = all_daily_sum fetch weeks \<and>
         (\<forall>camera_id c. map_of (md_cameras md) camera_id = Some c \<longrightarrow>
            mc_total_infractions c = stored_total_sum fetch weeks camera_id) \<and>
         device_sum md = all_stored_total fetch weeks \<and>
         (md_total_infractions md = device_sum md \<longleftrightarrow>
            all_daily_sum fetch weeks = all_stored_total fetch weeks) \<and>
         ((\<forall>week\<in>set weeks. \<forall>data. fetch week = Some data \<longrightarrow>
             (\<forall>(camera_id, cd)\<in>set data. cd_total cd = Some (daily_sum cd))) \<longrightarrow>
          md_total_infractions md = device_sum md) \<and>
         (\<exists>fetch' weeks' md'. month_rollup fetch' weeks' = Inr md' \<and>
            md_total_infractions md' \<noteq> device_sum md')"
proof -
  from assms have m: "month_weeks fetch empty_month weeks = Inr md"
    by (simp add: month_rollup_def)
  have z: "md_total_infractions empty_month = 0" "device_sum empty_month = 0"
    "\<And>cid. camera_total empty_month cid = 0"
    by (simp_all add: empty_month_def device_sum_def camera_total_def)
  from month_weeks_totals [OF m] z
  have t: "md_total_infractions md = all_daily_sum fetch weeks"
    and d: "device_sum md = all_stored_total fetch weeks"
    by simp_all
  have c: "mc_total_infractions c = stored_total_sum fetch weeks camera_id"
    if "map_of (md_cameras md) camera_id = Some c" for camera_id c
    using month_weeks_totals [OF m, of camera_id] z that by (simp add: camera_total_def)
  have e: "\<exists>fetch' weeks' md'. month_rollup fetch' weeks' = Inr md' \<and>
            md_total_infractions md' \<noteq> device_sum md'"
    by (intro exI conjI, rule mismatch_rollup) (simp add: device_sum_def)
  from t d c e matching_weeks [of weeks fetch] show ?thesis by auto
qed

theorem monthly_totals_witness:
  "\<exists>md. month_rollup merge_example [1, 2] = Inr md \<and>
        md_total_infractions md = 8 \<and> device_sum md = 8 \<and>
        map (\<lambda>e. mc_total_infractions (snd e)) (md_cameras md) = [8]"
proof -
  define md where
    "md = \<lparr>md_total_infractions = 8, md_total_frames = 80,
            md_cameras =
              [(''D'', \<lparr>mc_name = ''Depot'', mc_total_infractions = 8, mc_total_frames = 80,
                        mc_weeks_active = 2\<rparr>)],
            md_daily_totals = [(''2024-01-01'', \<lparr>dt_infractions = 8, dt_frames = 80\<rparr>)],
            md_week_summaries =
              [\<lparr>ws_week = 1, ws_infractions = 3, ws_frames = 30\<rparr>,
               \<lparr>ws_week = 2, ws_infractions = 5, ws_frames = 50\<rparr>]\<rparr>"
  have r: "month_rollup merge_example [1, 2] = Inr md"
    unfolding md_def by code_simp
  have h: "\<forall>week\<in>set [1, 2]. \<forall>data. merge_example week = Some data \<longrightarrow>
             (\<forall>(camera_id, cd)\<in>set data. cd_total cd = Some (daily_sum cd))"
    by (auto simp add: merge_example_def daily_sum_def get_dict_def)
  have a: "all_daily_sum merge_example [1, 2] = 8" by code_simp
  from monthly_totals [OF r] h a
  have "md_total_infractions md = 8 \<and> device_sum md = 8" by simp
  with r show ?thesis by (intro exI [of _ md]) (simp add: md_def)
qed

text \<open>
  Two cameras whose stored totals are off by one in opposite directions: neither stored
  total matches its daily entries, and yet the overall total is the sum of the
  per-device totals.
\<close>

theorem offsetting_totals_counterexample:
  "month_rollup (one_week offsetting_week) [1] = Inr offsetting_rollup \<and>
   md_total_infractions offsetting_rollup = 1 \<and>
   device_sum offsetting_rollup = 1 \<and>
   map (\<lambda>e. cd_total (snd e)) offsetting_week = [Some 1, Some 0] \<and>
   map (\<lambda>e. daily_sum (snd e)) offsetting_week = [0, 1]"
  by code_simp

section \<open>Search\<close>

lemma excluded_iff:
  "excluded p date cnt \<longleftrightarrow> \<not> criteria_hold p (week, camera_id, cd, date, cnt)"
  by (auto simp add: excluded_def criteria_hold_def date_excluded_def below_min_def
      above_max_def split: option.splits)

lemma search_dates_eq:
  "search_dates p week camera_id cd acc items =
     (if list_all named
           (filter (criteria_hold p) (map (\<lambda>entry. (week, camera_id, cd, entry)) items))
      then Inr (acc @ map make_match
             (filter (criteria_hold p)
                (map (\<lambda>entry. (week, camera_id, cd, entry)) items)))
      else Inl (KeyError ''camera''))"
proof (induction items arbitrary: acc)
  case Nil
  then show ?case by simp
next
  case (Cons e items)
  obtain date cnt where e: "e = (date, cnt)" by (cases e)
  show ?case
  proof (cases "criteria_hold p (week, camera_id, cd, date, cnt)")
    case False
    then show ?thesis by (simp add: e Cons.IH excluded_iff [of p date cnt week camera_id cd])
  next
    case True
    show ?thesis
    proof (cases "cd_camera cd")
      case None
      with True show ?thesis
        by (simp add: e excluded_iff [of p date cnt week camera_id cd] and_then_def
            getitem_def named_def)
    next
      case (Some name)
      with True show ?thesis
        by (simp add: e excluded_iff [of p date cnt week camera_id cd] and_then_def
            getitem_def named_def Cons.IH make_match_def get0_def)
    qed
  qed
qed

lemma search_cameras_eq:
  "search_cameras p week acc data =
     (if list_all named (filter (criteria_hold p) (week_candidates week data))
      then Inr (acc @ map make_match (filter (criteria_hold p) (week_candidates week data)))
      else Inl (KeyError ''camera''))"
proof (induction data arbitrary: acc)
  case Nil
  then show ?case by (simp add: week_candidates_def)
next
  case (Cons e data)
  obtain camera_id cd where e: "e = (camera_id, cd)" by (cases e)
  show ?case
    by (simp add: e search_dates_eq and_then_def Cons.IH week_candidates_def
        camera_candidates_def)
qed

lemma search_weeks_eq:
  "search_weeks fetch p acc weeks =
     (if list_all named (filter (criteria_hold p) (candidates fetch weeks))
      then Inr (acc @ map make_match (filter (criteria_hold p) (candidates fetch weeks)))
      else Inl (KeyError ''camera''))"
proof (induction weeks arbitrary: acc)
  case Nil
  then show ?case by (simp add: candidates_def)
next
  case (Cons week weeks)
  show ?case
  proof (cases "fetch week")
    case None
    then show ?thesis by (simp add: Cons.IH candidates_def)
  next
    case (Some data)
    then show ?thesis
      by (cases "data = []")
        (simp_all add: Cons.IH candidates_def search_cameras_eq and_then_def
          week_candidates_def)
  qed
qed


lemma search_eq:
  "search fetch p weeks =
     (if list_all named (filter (criteria_hold p) (candidates fetch weeks))
      then Inr (sort_key match_key
                  (map make_match (filter (criteria_hold p) (candidates fetch weeks))))
      else Inl (KeyError ''camera''))"
  by (simp add: search_def search_weeks_eq and_then_def)

lemma match_key_order: "match_key a \<le> match_key b \<Longrightarrow> date_then_count a b"
  by (auto simp add: match_key_def date_then_count_def less_eq_prod_def)

lemma sorted_matches: "sorted_wrt date_then_count (sort_key match_key ms)"
proof -
  have "sorted (map match_key (sort_key match_key ms))" by (rule sorted_sort_key)
  then have "sorted_wrt (\<lambda>a b. match_key a \<le> match_key b) (sort_key match_key ms)"
    by (simp add: sorted_map)
  then show ?thesis by (rule sorted_wrt_mono_rel [rotated]) (simp add: match_key_order)
qed

text \<open>
  C3 (search). Over the scanned weeks, when every camera with a candidate that meets the
  criteria has a name, the search returns the matches of exactly the candidates that meet
  the criteria, each once per occurrence, with the frame count of the camera's frame entry
  for the date (0 when absent), sorted by ascending date and then by descending count.
  A date criterion that is the empty string counts as not set. When a camera with a
  candidate that meets the criteria has no name, the search fails with a key error.
\<close>

theorem search_correct:
  "(list_all named (filter (criteria_hold p) (candidates fetch weeks)) \<longrightarrow>
      (\<exists>ms. search fetch p weeks = Inr ms \<and>
            mset ms = mset (map make_match (filter (criteria_hold p) (candidates fetch weeks))) \<and>
            sorted_wrt date_then_count ms)) \<and>
   (\<not> list_all named (filter (criteria_hold p) (candidates fetch weeks)) \<longrightarrow>
      search fetch p weeks = Inl (KeyError ''camera''))"
  by (simp add: search_eq sorted_matches)

theorem search_correct_witness:
  "search merge_example
     \<lparr>sp_date = Some ''2024-01-01'', sp_min_infractions = Some 4, sp_max_infractions = None\<rparr>
     [1, 2] = Inr [depot_week_2]"
proof -
  let ?p = "\<lparr>sp_date = Some ''2024-01-01'', sp_min_infractions = Some 4,
              sp_max_infractions = None\<rparr>"
  have n: "list_all named (filter (criteria_hold ?p) (candidates merge_example [1, 2]))"
    by code_simp
  have e: "map make_match (filter (criteria_hold ?p) (candidates merge_example [1, 2])) =
             [depot_week_2]"
    by code_simp
  from search_correct [of ?p merge_example "[1, 2]"] n obtain ms where
    r: "search merge_example ?p [1, 2] = Inr ms"
    and m: "mset ms = mset (map make_match
              (filter (criteria_hold ?p) (candidates merge_example [1, 2])))"
    by blast
  from m e have "mset ms = {#depot_week_2#}" by simp
  then have "ms = [depot_week_2]" by (metis mset.simps(1,2) mset_eq_setD set_empty2
        mset_single_iff_right single_is_union)
  with r show ?thesis by simp
qed

text \<open>
  With the empty string as the date criterion the search returns the entries of
  2024-01-01, whose date is not equal to it.
\<close>

theorem empty_date_counterexample:
  "search_infractions merge_example
     \<lparr>sp_date = Some [], sp_min_infractions = None, sp_max_infractions = None\<rparr> =
     Inr [depot_week_2, depot_week_1] \<and>
   m_date depot_week_2 \<noteq> []"
  by code_simp


lemma distinct_concat_map_key:
  assumes "distinct (map k xs)"
    and "\<And>x. x \<in> set xs \<Longrightarrow> distinct (f x)"
    and "\<And>x y. x \<in> set xs \<Longrightarrow> y \<in> set (f x) \<Longrightarrow> g y = k x"
  shows "distinct (concat (map f xs))"
  using assms
proof (induction xs)
  case Nil
  then show ?case by simp
next
  case (Cons x xs)
  have "set (f x) \<inter> set (concat (map f xs)) = {}"
  proof (rule ccontr)
    assume "set (f x) \<inter> set (concat (map f xs)) \<noteq> {}"
    then obtain y x' where y: "y \<in> set (f x)" and x': "x' \<in> set xs" "y \<in> set (f x')"
      by auto
    from Cons.prems(3) [of x y] y have "g y = k x" by simp
    moreover from Cons.prems(3) [of x' y] x' have "g y = k x'" by simp
    ultimately have "k x = k x'" by simp
    moreover have "k x' \<in> set (map k xs)" using x'(1) by simp
    ultimately have "k x \<in> set (map k xs)" by simp
    with Cons.prems(1) show False by simp
  qed
  moreover have "distinct (concat (map f xs))"
    using Cons.prems by (intro Cons.IH) auto
  moreover have "distinct (f x)" using Cons.prems(2) by simp
  ultimately show ?case by simp
qed

lemma camera_triples:
  "map candidate_triple (camera_candidates week (camera_id, cd)) =
   map (\<lambda>entry. (week, camera_id, fst entry)) (get_dict (cd_infractions cd))"
  by (simp add: camera_candidates_def candidate_triple_def case_prod_unfold)

lemma distinct_camera_triples:
  assumes "distinct (map fst (get_dict (cd_infractions cd)))"
  shows "distinct (map candidate_triple (camera_candidates week (camera_id, cd)))"
proof -
  have d: "distinct (map (\<lambda>d. (week, camera_id, d)) ds)" if "distinct ds" for ds :: "string list"
    using that by (simp add: distinct_map inj_on_def)
  have "map (\<lambda>entry. (week, camera_id, fst entry)) (get_dict (cd_infractions cd)) =
        map (\<lambda>d. (week, camera_id, d)) (map fst (get_dict (cd_infractions cd)))"
    by simp
  with d [OF assms] show ?thesis by (simp only: camera_triples)
qed

lemma week_triples:
  "map candidate_triple (week_candidates week data) =
   concat (map (\<lambda>e. map candidate_triple (camera_candidates week e)) data)"
  by (simp add: week_candidates_def map_concat comp_def)

lemma distinct_week_triples:
  assumes "distinct (map fst data)"
    and "list_all (\<lambda>e. distinct (map fst (get_dict (cd_infractions (snd e))))) data"
  shows "distinct (map candidate_triple (week_candidates week data))"
  unfolding week_triples
proof (rule distinct_concat_map_key [where k = fst and g = "\<lambda>t. fst (snd t)"])
  show "distinct (map fst data)" by (rule assms(1))
next
  fix e assume "e \<in> set data"
  with assms(2) have "distinct (map fst (get_dict (cd_infractions (snd e))))"
    by (simp add: list_all_iff)
  from distinct_camera_triples [OF this, of week "fst e"]
  show "distinct (map candidate_triple (camera_candidates week e))" by simp
next
  fix e t assume "e \<in> set data" "t \<in> set (map candidate_triple (camera_candidates week e))"
  then show "fst (snd t) = fst e"
    by (auto simp add: camera_candidates_def candidate_triple_def case_prod_unfold)
qed

lemma week_triples_week:
  "t \<in> set (map candidate_triple (week_candidates week data)) \<Longrightarrow> fst t = week"
  by (auto simp add: week_candidates_def camera_candidates_def candidate_triple_def)

lemma all_triples:
  "map candidate_triple (candidates fetch weeks) =
   concat (map (\<lambda>week. map candidate_triple
             (case fetch week of None \<Rightarrow> [] | Some data \<Rightarrow> week_candidates week data)) weeks)"
  by (simp add: candidates_def map_concat comp_def)

lemma distinct_all_triples:
  assumes "unique_keys fetch weeks"
  shows "distinct (map candidate_triple (candidates fetch weeks))"
  unfolding all_triples
proof (rule distinct_concat_map_key [where k = "\<lambda>week. week" and g = fst])
  show "distinct (map (\<lambda>week. week) weeks)" using assms by (simp add: unique_keys_def)
next
  fix week assume "week \<in> set weeks"
  with assms show "distinct (map candidate_triple
     (case fetch week of None \<Rightarrow> [] | Some data \<Rightarrow> week_candidates week data))"
    by (auto simp add: unique_keys_def list_all_iff distinct_week_triples split: option.splits)
next
  fix week t assume "week \<in> set weeks"
    and "t \<in> set (map candidate_triple
      (case fetch week of None \<Rightarrow> [] | Some data \<Rightarrow> week_candidates week data))"
  then show "fst t = week"
    using week_triples_week [of t week] by (cases "fetch week") auto
qed

lemma match_triple_make: "match_triple (make_match c) = candidate_triple c"
  by (simp add: match_triple_def make_match_def candidate_triple_def case_prod_unfold)

lemma no_criteria_hold:
  assumes "sp_date p = None" "sp_min_infractions p = None" "sp_max_infractions p = None"
  shows "filter (criteria_hold p) cs = cs"
  using assms by (simp add: criteria_hold_def case_prod_unfold)

text \<open>
  C6 (search without criteria). With no criterion set, and every camera that has an
  infraction entry named, the search returns one match for each (week, camera, date)
  triple of the scanned record sets, as often as the triple occurs there and no others;
  where every key of a JSON object occurs once and every week is listed once, no two
  matches share their triple. A camera's date that two weeks hold gives one match per
  week.
\<close>

theorem search_without_criteria:
  assumes "sp_date p = None" "sp_min_infractions p = None" "sp_max_infractions p = None"
    and "list_all named (candidates fetch weeks)"
  shows "\<exists>ms. search fetch p weeks = Inr ms \<and>
           mset (map match_triple ms) = mset (map candidate_triple (candidates fetch weeks)) \<and>
           (unique_keys fetch weeks \<longrightarrow> distinct (map match_triple ms))"
proof -
  let ?ms = "sort_key match_key (map make_match (candidates fetch weeks))"
  have r: "search fetch p weeks = Inr ?ms"
    using assms(4) by (simp add: search_eq no_criteria_hold [OF assms(1,2,3)])
  have l: "map match_triple (map make_match (candidates fetch weeks)) =
      map candidate_triple (candidates fetch weeks)"
    by (simp add: comp_def match_triple_make)
  have "mset (map match_triple ?ms) = image_mset match_triple (mset ?ms)"
    by (simp only: mset_map)
  also have "\<dots> = image_mset match_triple (mset (map make_match (candidates fetch weeks)))"
    by (simp only: mset_sort)
  also have "\<dots> = mset (map match_triple (map make_match (candidates fetch weeks)))"
    by (simp only: mset_map)
  finally have m: "mset (map match_triple ?ms) =
      mset (map candidate_triple (candidates fetch weeks))"
    by (simp only: l)
  have "distinct (map match_triple ?ms)" if "unique_keys fetch weeks"
    using distinct_all_triples [OF that] mset_eq_imp_distinct_iff [OF m] by simp
  with r m show ?thesis by blast
qed

theorem search_without_criteria_witness:
  "\<exists>ms. search merge_example no_criteria [1, 2] = Inr ms \<and>
        mset (map match_triple ms) =
          {#(1, ''D'', ''2024-01-01''), (2, ''D'', ''2024-01-01'')#} \<and>
        distinct (map match_triple ms)"
proof -
  have n: "list_all named (candidates merge_example [1, 2])" by code_simp
  have u: "unique_keys merge_example [1, 2]" by code_simp
  have c: "map candidate_triple (candidates merge_example [1, 2]) =
             [(1, ''D'', ''2024-01-01''), (2, ''D'', ''2024-01-01'')]"
    by code_simp
  from search_without_criteria [of no_criteria merge_example "[1, 2]"] n u
  obtain ms where "search merge_example no_criteria [1, 2] = Inr ms"
    and "mset (map match_triple ms) =
           mset (map candidate_triple (candidates merge_example [1, 2]))"
    and "distinct (map match_triple ms)"
    by (auto simp add: no_criteria_def)
  then show ?thesis unfolding c by (intro exI [of _ ms]) simp
qed

text \<open>
  The camera D has an entry for 2024-01-01 in both weeks: the search returns two matches
  for that (camera, date) pair.
\<close>

theorem one_match_per_week_counterexample:
  "search_infractions merge_example no_criteria = Inr [depot_week_2, depot_week_1] \<and>
   (m_camera_id depot_week_2, m_date depot_week_2) =
     (m_camera_id depot_week_1, m_date depot_week_1)"
  by code_simp

section \<open>Malformed records\<close>

lemma collect_camera_Inl:
  "collect_camera flt week ad entry = Inl e \<Longrightarrow> \<exists>k. e = KeyError k"
  by (auto simp add: collect_camera_def init_entry_def and_then_def getitem_def
      split: prod.splits if_splits option.splits sum.splits)

lemma collect_cameras_Inl:
  "collect_cameras flt week ad data = Inl e \<Longrightarrow> \<exists>k. e = KeyError k"
  by (induction data arbitrary: ad) (auto split: sum.splits dest: collect_camera_Inl)

lemma collect_weeks_Inl:
  "collect_weeks fetch flt ad weeks = Inl e \<Longrightarrow> \<exists>k. e = KeyError k"
  by (induction weeks arbitrary: ad)
     (auto split: sum.splits option.splits if_splits dest: collect_cameras_Inl)

lemma collect_cameras_append:
  "collect_cameras flt week ad (d1 @ d2) =
     and_then (collect_cameras flt week ad d1) (\<lambda>ad1. collect_cameras flt week ad1 d2)"
  by (induction d1 arbitrary: ad) (auto simp add: and_then_def split: sum.splits)

lemma collect_weeks_append:
  "collect_weeks fetch flt ad (ws1 @ ws2) =
     and_then (collect_weeks fetch flt ad ws1) (\<lambda>ad1. collect_weeks fetch flt ad1 ws2)"
  by (induction ws1 arbitrary: ad)
     (auto simp add: and_then_def split: sum.splits option.splits)

lemma collect_camera_keys:
  assumes "collect_camera flt week ad (camera_id, cd) = Inr ad'"
  shows "fst ` set ad' \<subseteq> insert camera_id (fst ` set ad)"
proof (cases "skip_camera flt camera_id")
  case True
  with assms show ?thesis by (auto simp add: collect_camera_def)
next
  case False
  with assms obtain v where "ad' = AList.update camera_id v ad"
    by (auto simp add: collect_camera_def and_then_def split: sum.splits)
  then show ?thesis by (simp add: AList.dom_update)
qed

lemma collect_cameras_keys:
  "collect_cameras flt week ad data = Inr ad' \<Longrightarrow>
   fst ` set ad' \<subseteq> fst ` set ad \<union> fst ` set data"
proof (induction data arbitrary: ad)
  case Nil
  then show ?case by simp
next
  case (Cons e data)
  obtain camera_id cd where e: "e = (camera_id, cd)" by (cases e)
  from Cons.prems obtain ad1 where s: "collect_camera flt week ad (camera_id, cd) = Inr ad1"
    and r: "collect_cameras flt week ad1 data = Inr ad'"
    by (auto simp add: e split: sum.splits)
  from Cons.IH [OF r] collect_camera_keys [OF s] show ?case by (auto simp add: e)
qed

lemma collect_weeks_keys:
  "collect_weeks fetch flt ad weeks = Inr ad' \<Longrightarrow> camera_id \<in> fst ` set ad' \<Longrightarrow>
   camera_id \<in> fst ` set ad \<or>
   (\<exists>week\<in>set weeks. \<exists>data. fetch week = Some data \<and> camera_id \<in> fst ` set data)"
proof (induction weeks arbitrary: ad)
  case Nil
  then show ?case by simp
next
  case (Cons week weeks)
  show ?case
  proof (cases "fetch week")
    case None
    with Cons.prems have "collect_weeks fetch flt ad weeks = Inr ad'" by simp
    from Cons.IH [OF this Cons.prems(2)] show ?thesis by auto
  next
    case (Some data)
    show ?thesis
    proof (cases "data = []")
      case True
      with Cons.prems Some have "collect_weeks fetch flt ad weeks = Inr ad'" by simp
      from Cons.IH [OF this Cons.prems(2)] show ?thesis by auto
    next
      case False
      with Cons.prems Some obtain ad1 where c: "collect_cameras flt week ad data = Inr ad1"
        and r: "collect_weeks fetch flt ad1 weeks = Inr ad'"
        by (auto split: sum.splits)
      from Cons.IH [OF r Cons.prems(2)] collect_cameras_keys [OF c] Some show ?thesis by auto
    qed
  qed
qed

lemma analyze_camera_total: "\<exists>a. analyze_camera acc = Inr a"
proof -
  obtain s where s: "calculate_statistics (map of_int (ad_infractions acc)) = Inr s"
    using calculate_statistics_total by blast
  obtain ia where ia: "daily_avg (map snd (ad_daily_infractions acc)) = Inr ia"
    using daily_avg_total by blast
  obtain fa where fa: "daily_avg (map snd (ad_daily_frames acc)) = Inr fa"
    using daily_avg_total by blast
  show ?thesis
    by (simp add: analyze_camera_def and_then_def s ia fa Let_def rounded_efficiency_eq)
qed

lemma analyze_all_total: "\<exists>r. analyze_all analysis all_data = Inr r"
proof (induction all_data arbitrary: analysis)
  case Nil
  then show ?case by simp
next
  case (Cons e all_data)
  obtain camera_id acc where e: "e = (camera_id, acc)" by (cases e)
  obtain a where "analyze_camera acc = Inr a" using analyze_camera_total by blast
  with Cons show ?case by (simp add: e)
qed

lemma bad_record_fails_camera:
  assumes "\<not> skip_camera flt camera_id"
    and "cd_total cd = None \<or> cd_camera cd = None \<and> camera_id \<notin> fst ` set ad"
  shows "\<exists>k. collect_camera flt week ad (camera_id, cd) = Inl (KeyError k)"
proof -
  have n: "map_of ad camera_id = None" if "camera_id \<notin> fst ` set ad"
    using that by (simp add: map_of_eq_None_iff)
  show ?thesis using assms n
    by (auto simp add: collect_camera_def init_entry_def and_then_def getitem_def
        split: option.splits)
qed


lemma bad_record_fails_cameras:
  assumes "\<not> skip_camera flt camera_id"
    and "cd_total cd = None \<or>
         cd_camera cd = None \<and> camera_id \<notin> fst ` set ad \<and> camera_id \<notin> fst ` set d1"
  shows "\<exists>k. collect_cameras flt week ad (d1 @ (camera_id, cd) # d2) = Inl (KeyError k)"
proof (cases "collect_cameras flt week ad d1")
  case (Inl e)
  with collect_cameras_Inl [OF Inl] show ?thesis
    by (auto simp add: collect_cameras_append and_then_def)
next
  case (Inr ad1)
  from collect_cameras_keys [OF Inr] assms(2)
  have "cd_total cd = None \<or> cd_camera cd = None \<and> camera_id \<notin> fst ` set ad1" by auto
  from bad_record_fails_camera [OF assms(1) this, of week] obtain k where
    "collect_camera flt week ad1 (camera_id, cd) = Inl (KeyError k)" by blast
  with Inr show ?thesis by (simp add: collect_cameras_append and_then_def)
qed

lemma bad_record_fails_weeks:
  assumes "fetch week = Some (d1 @ (camera_id, cd) # d2)"
    and "\<not> skip_camera flt camera_id"
    and "cd_total cd = None \<or>
         cd_camera cd = None \<and> camera_id \<notin> fst ` set ad \<and> camera_id \<notin> fst ` set d1 \<and>
         (\<forall>w\<in>set ws1. \<forall>dw. fetch w = Some dw \<longrightarrow> camera_id \<notin> fst ` set dw)"
  shows "\<exists>k. collect_weeks fetch flt ad (ws1 @ week # ws2) = Inl (KeyError k)"
proof (cases "collect_weeks fetch flt ad ws1")
  case (Inl e)
  with collect_weeks_Inl [OF Inl] show ?thesis
    by (auto simp add: collect_weeks_append and_then_def)
next
  case (Inr ad1)
  have "camera_id \<notin> fst ` set ad1"
    if "camera_id \<notin> fst ` set ad"
      and "\<forall>w\<in>set ws1. \<forall>dw. fetch w = Some dw \<longrightarrow> camera_id \<notin> fst ` set dw"
    using collect_weeks_keys [OF Inr, of camera_id] that by blast
  with assms(3) have "cd_total cd = None \<or>
      cd_camera cd = None \<and> camera_id \<notin> fst ` set ad1 \<and> camera_id \<notin> fst ` set d1"
    by blast
  from bad_record_fails_cameras [OF assms(2) this, of week d2] obtain k where
    "collect_cameras flt week ad1 (d1 @ (camera_id, cd) # d2) = Inl (KeyError k)" by blast
  with Inr assms(1) show ?thesis by (simp add: collect_weeks_append and_then_def)
qed

text \<open>
  C7 (malformed record). A record that the analysis processes and that has no total-count,
  or that is the first record of its camera and has no display name, makes the whole
  analysis fail with a key error: no value is guessed for the field, and no camera's
  contribution is returned, those of the other cameras of the week included. A record
  without a daily infraction or frame mapping is processed as one with an empty mapping.
\<close>

theorem malformed_record_aborts:
  assumes "weeks_to_analyze fetch week_number = ws1 @ week # ws2"
    and "fetch week = Some (d1 @ (camera_id, cd) # d2)"
    and "\<not> skip_camera flt camera_id"
    and "cd_total cd = None \<or>
         cd_camera cd = None \<and> camera_id \<notin> fst ` set d1 \<and>
         (\<forall>w\<in>set ws1. \<forall>dw. fetch w = Some dw \<longrightarrow> camera_id \<notin> fst ` set dw)"
  shows "(\<exists>k. analyze_camera_performance fetch week_number flt = Inl (KeyError k)) \<and>
         (cd_infractions cd' = None \<longrightarrow>
            collect_camera flt' week' all_data (camera_id', cd') =
            collect_camera flt' week' all_data (camera_id', cd'\<lparr>cd_infractions := Some []\<rparr>)) \<and>
         (cd_frames cd' = None \<longrightarrow>
            collect_camera flt' week' all_data (camera_id', cd') =
            collect_camera flt' week' all_data (camera_id', cd'\<lparr>cd_frames := Some []\<rparr>))"
proof (intro conjI impI)
  from assms(4) have "cd_total cd = None \<or>
         cd_camera cd = None \<and> camera_id \<notin> fst ` set ([] :: all_data) \<and>
         camera_id \<notin> fst ` set d1 \<and>
         (\<forall>w\<in>set ws1. \<forall>dw. fetch w = Some dw \<longrightarrow> camera_id \<notin> fst ` set dw)"
    by simp
  from bad_record_fails_weeks [OF assms(2,3) this, of ws2] obtain k where
    "collect_weeks fetch flt [] (ws1 @ week # ws2) = Inl (KeyError k)" by blast
  then show "\<exists>k. analyze_camera_performance fetch week_number flt = Inl (KeyError k)"
    by (simp add: analyze_camera_performance_def assms(1))
next
  assume "cd_infractions cd' = None"
  then show "collect_camera flt' week' all_data (camera_id', cd') =
            collect_camera flt' week' all_data (camera_id', cd'\<lparr>cd_infractions := Some []\<rparr>)"
    by (simp add: collect_camera_def init_entry_def get_dict_def split: option.splits)
next
  assume "cd_frames cd' = None"
  then show "collect_camera flt' week' all_data (camera_id', cd') =
            collect_camera flt' week' all_data (camera_id', cd'\<lparr>cd_frames := Some []\<rparr>)"
    by (simp add: collect_camera_def init_entry_def get_dict_def split: option.splits)
qed

theorem malformed_record_aborts_witness:
  "analyze_camera_performance (one_week nameless_week) (Some 1) None =
     Inl (KeyError ''camera'')"
proof -
  have w: "weeks_to_analyze (one_week nameless_week) (Some 1) = [] @ 1 # []"
    by (simp add: weeks_to_analyze_def)
  have f: "one_week nameless_week 1 =
      Some ([] @ (''1'', nameless_camera) # [(''2'', camera_one_in_three)])"
    by (simp add: one_week_def nameless_week_def)
  have s: "\<not> skip_camera None ''1''" by (simp add: skip_camera_def)
  have b: "cd_total nameless_camera = None \<or>
         cd_camera nameless_camera = None \<and> ''1'' \<notin> fst ` set ([] :: week_data) \<and>
         (\<forall>w\<in>set []. \<forall>dw. one_week nameless_week w = Some dw \<longrightarrow> ''1'' \<notin> fst ` set dw)"
    by (simp add: nameless_camera_def)
  from malformed_record_aborts [OF w f s b] obtain k where
    k: "analyze_camera_performance (one_week nameless_week) (Some 1) None = Inl (KeyError k)"
    by blast
  have "analyze_camera_performance (one_week nameless_week) (Some 1) None =
          Inl (KeyError ''camera'')" by code_simp
  with k show ?thesis by simp
qed

text \<open>
  The first camera of the week has no name, the second is well formed: the analysis
  returns the error, and nothing of the second camera.
\<close>

theorem nameless_camera_counterexample:
  "analyze_camera_performance (one_week nameless_week) (Some 1) None =
     Inl (KeyError ''camera'') \<and>
   map fst nameless_week = [''1'', ''2''] \<and>
   (\<exists>a. analyze_camera_performance (one_week [(''2'', camera_one_in_three)]) (Some 1) None =
          Inr [(''2'', a)])"
proof -
  have "analyze_camera_performance (one_week nameless_week) (Some 1) None =
     Inl (KeyError ''camera'')" by code_simp
  moreover have "map fst nameless_week = [''1'', ''2'']" by code_simp
  moreover have "analyze_camera_performance (one_week [(''2'', camera_one_in_three)]) (Some 1) None =
     Inr [(''2'',
       \<lparr>an_name = ''South'', an_weeks_analyzed = 1,
        an_infraction_stats =
          \<lparr>st_mean = 1, st_median = 1, st_min = 1, st_max = 1, st_total = 1\<rparr>,
        an_daily_infraction_avg = 1, an_daily_frame_avg = 3,
        an_efficiency = 3333 / 100\<rparr>)]" by code_simp
  ultimately show ?thesis by blast
qed

end
